theory Spec2Isabelle
  imports Main "HOL-Library.AList"
begin

section \<open>Data model of \<^verbatim>\<open>main.go\<close>\<close>

text \<open>
  Strings are byte strings (\<^typ>\<open>string\<close>). The parsed feed document \<^verbatim>\<open>Rss\<close> is a
  channel with three text fields and an ordered list of items. Field names carry the
  name of their struct as a prefix, since the structs of the source share field names.
\<close>

record Item =
  Item_Title :: string
  Item_Link :: string
  Item_Description :: string
  Item_PubDate :: string

record Channel =
  Channel_Title :: string
  Channel_Link :: string
  Channel_Description :: string
  Channel_Items :: "Item list"

record Rss =
  Rss_Channel :: Channel

record ESPayload =
  Title :: string
  Description :: string

record ESUpdatePayload =
  Doc :: ESPayload

text \<open>
  A point in time is a number of nanoseconds relative to the Unix epoch, a
  \<^verbatim>\<open>time.Duration\<close> is a signed 64-bit number of nanoseconds.
  \<^verbatim>\<open>sql.NullTime\<close> holds the zero \<^verbatim>\<open>time.Time\<close> (1 January of year 1, UTC)
  when the column is NULL.
\<close>

record NullTime =
  Time :: int
  Valid :: bool

definition zeroTime :: int where
  "zeroTime = - 62135596800 * 1000000000"

definition Hour :: int where
  "Hour = 3600 * 1000000000"

definition articleThreshold :: int where
  "articleThreshold = Hour * 24 * 3"

definition maxDuration :: int where
  "maxDuration = 2 ^ 63 - 1"

definition minDuration :: int where
  "minDuration = - (2 ^ 63)"

text \<open>
  \<^verbatim>\<open>t.Sub(u)\<close> is the difference \<^verbatim>\<open>t - u\<close>, replaced by the largest (smallest)
  duration when it does not fit into a \<^verbatim>\<open>Duration\<close>.
\<close>

definition Sub :: "int \<Rightarrow> int \<Rightarrow> int" where
  "Sub t u =
     (if t - u > maxDuration then maxDuration
      else if t - u < minDuration then minDuration
      else t - u)"

text \<open>
  Go's \<^verbatim>\<open>error\<close> values: the two errors the program makes itself, and the errors
  handed back by a library call. A nil \<^verbatim>\<open>error\<close> is \<^term>\<open>None\<close>.
\<close>

datatype error =
    LibError string
  | EmptyString
  | ESError int string

text \<open>
  How a function of the program ends: it returns, it panics (a nil pointer is
  dereferenced) or it ends the process through \<^verbatim>\<open>log.Fatal\<close>.
\<close>

datatype 'a outcome = Ret 'a | Panic | Exit

text \<open>JSON documents, as far as the program builds them: objects of strings.\<close>

datatype json = JString string | JObject "(string \<times> json) list"

text \<open>
  An index response: its HTTP status and what \<^verbatim>\<open>io.ReadAll(res.Body)\<close> gives.
  A nil \<^verbatim>\<open>*esapi.Response\<close> is \<^term>\<open>None\<close>.
\<close>

record Response =
  StatusCode :: int
  Body :: "error + string"

definition IsError :: "Response \<Rightarrow> bool" where
  "IsError r = (StatusCode r > 299)"

text \<open>The three SQL statements the program executes, with their arguments.\<close>

datatype sql =
    UpsertArticle string string string string string string
  | UpsertSite string string string string string
  | DeleteArticle string

section \<open>The external collaborators\<close>

text \<open>
  The relational store, the search index, the clock and the network are outside the
  program. They are a parameter: a record of operations on a world \<^typ>\<open>'w\<close>, each
  returning what the library call returns in Go together with the new world.
  An index call returns the pair \<^verbatim>\<open>(res, err)\<close>; a query returns an error or
  the rows, each row being what \<^verbatim>\<open>rows.Scan\<close> gives for it.
\<close>

type_synonym es_result = "Response option \<times> error option"

record 'w env =
  db_Exec :: "sql \<Rightarrow> 'w \<Rightarrow> error option \<times> 'w"
  db_Query :: "'w \<Rightarrow> (error + (error + string \<times> NullTime) list) \<times> 'w"
  es_Update :: "string \<Rightarrow> string \<Rightarrow> json \<Rightarrow> 'w \<Rightarrow> es_result \<times> 'w"
  es_Create :: "string \<Rightarrow> string \<Rightarrow> json \<Rightarrow> 'w \<Rightarrow> es_result \<times> 'w"
  es_Delete :: "string \<Rightarrow> string \<Rightarrow> 'w \<Rightarrow> es_result \<times> 'w"
  time_Now :: "'w \<Rightarrow> int \<times> 'w"
  http_Get_Unmarshal :: "string \<Rightarrow> 'w \<Rightarrow> (error + Rss) \<times> 'w"

section \<open>Library functions\<close>

subsection \<open>\<^verbatim>\<open>strings.ReplaceAll\<close> with a one-byte pattern\<close>

text \<open>
  Every call of the source is \<^verbatim>\<open>strings.ReplaceAll(s, "'", "`")\<close>: the pattern is
  one byte, so the replacement goes byte by byte.
\<close>

fun ReplaceAll :: "string \<Rightarrow> char \<Rightarrow> string \<Rightarrow> string" where
  "ReplaceAll [] old new = []"
| "ReplaceAll (c # s) old new =
     (if c = old then new @ ReplaceAll s old new else c # ReplaceAll s old new)"

definition sanitize :: "string \<Rightarrow> string" where
  "sanitize s = ReplaceAll s (CHR 0x27) [CHR 0x60]"

subsection \<open>\<^verbatim>\<open>base64.URLEncoding.EncodeToString\<close>\<close>

definition encodeURL :: string where
  "encodeURL = ''ABCDEFGHIJKLMNOPQRSTUVWXYZabcdefghijklmnopqrstuvwxyz0123456789-_''"

definition sextet :: "nat \<Rightarrow> nat \<Rightarrow> char" where
  "sextet val shift = encodeURL ! (val div 2 ^ shift mod 64)"

text \<open>
  Three bytes give four characters; a rest of two bytes gives three characters and one
  padding character, a rest of one byte two characters and two padding characters.
\<close>

fun EncodeToString :: "string \<Rightarrow> string" where
  "EncodeToString [] = []"
| "EncodeToString [a] =
     (let val = of_char a * 65536
      in [sextet val 18, sextet val 12, CHR ''='', CHR ''=''])"
| "EncodeToString [a, b] =
     (let val = of_char a * 65536 + of_char b * 256
      in [sextet val 18, sextet val 12, sextet val 6, CHR ''=''])"
| "EncodeToString (a # b # c # src) =
     (let val = of_char a * 65536 + of_char b * 256 + of_char c
      in [sextet val 18, sextet val 12, sextet val 6, sextet val 0] @ EncodeToString src)"

subsection \<open>\<^verbatim>\<open>json.Marshal\<close> of the two payload structs\<close>

text \<open>
  The field tags of the structs name the keys. Marshalling a struct of strings does not
  fail, so the error is always nil; the program tests it all the same.
\<close>

definition Marshal_ESPayload :: "ESPayload \<Rightarrow> json \<times> error option" where
  "Marshal_ESPayload p =
     (JObject [(''title'', JString (Title p)), (''description'', JString (Description p))], None)"

definition Marshal_ESUpdatePayload :: "ESUpdatePayload \<Rightarrow> json \<times> error option" where
  "Marshal_ESUpdatePayload p = (JObject [(''doc'', fst (Marshal_ESPayload (Doc p)))], None)"

section \<open>The program\<close>

subsection \<open>\<^verbatim>\<open>scrapeRss\<close>\<close>

definition scrapeRss :: "'w env \<Rightarrow> string \<Rightarrow> 'w \<Rightarrow> Rss outcome \<times> 'w" where
  "scrapeRss env feedUrl w =
     (case http_Get_Unmarshal env feedUrl w of
        (Inl err, w1) \<Rightarrow> (Exit, w1)
      | (Inr parsedData, w1) \<Rightarrow> (Ret parsedData, w1))"

subsection \<open>\<^verbatim>\<open>pushArticleToES\<close> and \<^verbatim>\<open>pushSiteToES\<close>\<close>

text \<open>
  The two functions of the source are the same text but for the name of the index.
  The response is dereferenced before the error is looked at; the error of the create
  call is assigned to the variable declared inside the not-found branch, so the error
  returned at the end is the one of the update call.
\<close>

definition pushToES ::
  "'w env \<Rightarrow> string \<Rightarrow> string \<Rightarrow> string \<Rightarrow> string \<Rightarrow> 'w \<Rightarrow> error option outcome \<times> 'w" where
  "pushToES env index ident title description w =
     (let payload = \<lparr>Doc = \<lparr>Title = title, Description = description\<rparr>\<rparr>;
          (data, err) = Marshal_ESUpdatePayload payload
      in if err \<noteq> None then (Ret err, w)
         else
           (case es_Update env index ident data w of
              ((None, err), w1) \<Rightarrow> (Panic, w1)
            | ((Some res, err), w1) \<Rightarrow>
                if IsError res then
                  if StatusCode res = 404 then
                    (let createPayload =
                           \<lparr>Title = Title (Doc payload), Description = Description (Doc payload)\<rparr>;
                         (createData, err2) = Marshal_ESPayload createPayload
                     in if err2 \<noteq> None then (Ret None, w1)
                        else
                          (case es_Create env index ident createData w1 of
                             ((None, err3), w2) \<Rightarrow> (Panic, w2)
                           | ((Some res2, err3), w2) \<Rightarrow>
                               if IsError res2 then
                                 (case Body res2 of
                                    Inr errBody \<Rightarrow>
                                      (Ret (Some (ESError (StatusCode res2) errBody)), w2)
                                  | Inl err4 \<Rightarrow> (Ret err, w2))
                               else (Ret err, w2)))
                  else (Ret err, w1)
                else (Ret err, w1)))"

definition pushArticleToES ::
  "'w env \<Rightarrow> string \<Rightarrow> string \<Rightarrow> string \<Rightarrow> 'w \<Rightarrow> error option outcome \<times> 'w" where
  "pushArticleToES env articleId title description w =
     pushToES env ''articles'' articleId title description w"

definition pushSiteToES ::
  "'w env \<Rightarrow> string \<Rightarrow> string \<Rightarrow> string \<Rightarrow> 'w \<Rightarrow> error option outcome \<times> 'w" where
  "pushSiteToES env siteId title description w =
     pushToES env ''sites'' siteId title description w"

subsection \<open>\<^verbatim>\<open>pushArticleToDB\<close> and \<^verbatim>\<open>pushSiteToDB\<close>\<close>

definition pushArticleToDB ::
  "'w env \<Rightarrow> string \<Rightarrow> string \<Rightarrow> string \<Rightarrow> string \<Rightarrow> string \<Rightarrow> string \<Rightarrow> 'w
   \<Rightarrow> error option \<times> 'w" where
  "pushArticleToDB env articleId title link descrtiption pubDate siteId w =
     db_Exec env (UpsertArticle articleId title link descrtiption pubDate siteId) w"

definition pushSiteToDB ::
  "'w env \<Rightarrow> string \<Rightarrow> string \<Rightarrow> string \<Rightarrow> string \<Rightarrow> string \<Rightarrow> 'w \<Rightarrow> error option \<times> 'w" where
  "pushSiteToDB env siteId feedUrl title link description w =
     db_Exec env (UpsertSite siteId feedUrl title link description) w"

subsection \<open>\<^verbatim>\<open>pushArticles\<close>\<close>

text \<open>
  The loop over the items: \<^verbatim>\<open>break\<close> at the first item with an empty title, link or
  description, \<^verbatim>\<open>return\<close> at the first write that reports an error.
\<close>

fun pushArticles_loop :: "'w env \<Rightarrow> string \<Rightarrow> Item list \<Rightarrow> 'w \<Rightarrow> unit outcome \<times> 'w" where
  "pushArticles_loop env siteId [] w = (Ret (), w)"
| "pushArticles_loop env siteId (article # items) w =
     (if Item_Title article = [] \<or> Item_Link article = [] \<or> Item_Description article = []
      then (Ret (), w)
      else
        (let articleId = EncodeToString (Item_Link article);
             title = sanitize (Item_Title article);
             description = sanitize (Item_Description article)
         in case pushArticleToDB env articleId title (sanitize (Item_Link article)) description
                   (sanitize (Item_PubDate article)) siteId w of
              (Some err, w1) \<Rightarrow> (Ret (), w1)
            | (None, w1) \<Rightarrow>
                (case pushArticleToES env articleId title description w1 of
                   (Ret (Some err), w2) \<Rightarrow> (Ret (), w2)
                 | (Ret None, w2) \<Rightarrow> pushArticles_loop env siteId items w2
                 | (Panic, w2) \<Rightarrow> (Panic, w2)
                 | (Exit, w2) \<Rightarrow> (Exit, w2))))"

definition pushArticles :: "'w env \<Rightarrow> string \<Rightarrow> Rss \<Rightarrow> 'w \<Rightarrow> unit outcome \<times> 'w" where
  "pushArticles env siteId data w =
     pushArticles_loop env siteId (Channel_Items (Rss_Channel data)) w"

subsection \<open>\<^verbatim>\<open>pushSite\<close>\<close>

definition pushSite ::
  "'w env \<Rightarrow> string \<Rightarrow> Rss \<Rightarrow> 'w \<Rightarrow> (string \<times> error option) outcome \<times> 'w" where
  "pushSite env feedUrl data w =
     (if Channel_Title (Rss_Channel data) = [] \<or> Channel_Link (Rss_Channel data) = []
      then (Ret ([], Some EmptyString), w)
      else
        (let title = sanitize (Channel_Title (Rss_Channel data));
             description = sanitize (Channel_Description (Rss_Channel data));
             siteId = EncodeToString feedUrl
         in case pushSiteToDB env siteId feedUrl title
                   (sanitize (Channel_Link (Rss_Channel data))) description w of
              (Some err, w1) \<Rightarrow> (Ret (feedUrl, Some err), w1)
            | (None, w1) \<Rightarrow>
                (case pushSiteToES env siteId title description w1 of
                   (Ret err, w2) \<Rightarrow> (Ret (siteId, err), w2)
                 | (Panic, w2) \<Rightarrow> (Panic, w2)
                 | (Exit, w2) \<Rightarrow> (Exit, w2))))"

subsection \<open>The task of one feed in \<^verbatim>\<open>scrapingCycle\<close>\<close>

text \<open>
  The body of the goroutine that \<^verbatim>\<open>scrapingCycle\<close> starts for each feed URL. The
  tasks of the feeds run concurrently; one task is sequential.
\<close>

definition feedTask :: "'w env \<Rightarrow> string \<Rightarrow> 'w \<Rightarrow> unit outcome \<times> 'w" where
  "feedTask env url w =
     (case scrapeRss env url w of
        (Ret res, w1) \<Rightarrow>
          (case pushSite env url res w1 of
             (Ret (siteId, Some err), w2) \<Rightarrow> (Ret (), w2)
           | (Ret (siteId, None), w2) \<Rightarrow> pushArticles env siteId res w2
           | (Panic, w2) \<Rightarrow> (Panic, w2)
           | (Exit, w2) \<Rightarrow> (Exit, w2))
      | (Panic, w1) \<Rightarrow> (Panic, w1)
      | (Exit, w1) \<Rightarrow> (Exit, w1))"

subsection \<open>\<^verbatim>\<open>cleanOutdated\<close>\<close>

text \<open>
  The loop over the scanned rows carries the two counters. Every failure ends the
  process; a nil response without an error would be dereferenced. The counters are Go
  \<^verbatim>\<open>int\<close>s that count rows, far below \<open>2\<^sup>6\<^sup>3\<close>.
\<close>

fun cleanOutdated_loop ::
  "'w env \<Rightarrow> (error + string \<times> NullTime) list \<Rightarrow> nat \<times> nat \<Rightarrow> 'w \<Rightarrow> (nat \<times> nat) outcome \<times> 'w" where
  "cleanOutdated_loop env [] (scannedCount, deleteCount) w =
     (Ret (scannedCount, deleteCount), w)"
| "cleanOutdated_loop env (Inl err # rows) (scannedCount, deleteCount) w = (Exit, w)"
| "cleanOutdated_loop env (Inr (ident, pubDate) # rows) (scannedCount, deleteCount) w =
     (case time_Now env w of
        (now, w1) \<Rightarrow>
          if Sub now (Time pubDate) > articleThreshold then
            (case db_Exec env (DeleteArticle ident) w1 of
               (Some err, w2) \<Rightarrow> (Exit, w2)
             | (None, w2) \<Rightarrow>
                 (case es_Delete env ''articles'' ident w2 of
                    ((res, Some err), w3) \<Rightarrow> (Exit, w3)
                  | ((None, None), w3) \<Rightarrow> (Panic, w3)
                  | ((Some res, None), w3) \<Rightarrow>
                      if IsError res then (Exit, w3)
                      else cleanOutdated_loop env rows (scannedCount + 1, deleteCount + 1) w3))
          else cleanOutdated_loop env rows (scannedCount + 1, deleteCount) w1)"

definition cleanOutdated :: "'w env \<Rightarrow> 'w \<Rightarrow> (nat \<times> nat) outcome \<times> 'w" where
  "cleanOutdated env w =
     (case db_Query env w of
        (Inl err, w1) \<Rightarrow> (Exit, w1)
      | (Inr rows, w1) \<Rightarrow> cleanOutdated_loop env rows (0, 0) w1)"

section \<open>Observing the requests\<close>

text \<open>
  To say which requests a run issues, and in which order, an environment is wrapped:
  the wrapped environment answers as the given one does and appends every request to a
  log that is carried beside the world.
\<close>

datatype event =
    EvExec sql
  | EvQuery
  | EvUpdate string string json
  | EvCreate string string json
  | EvDelete string string
  | EvFetch string

definition logged :: "'w env \<Rightarrow> ('w \<times> event list) env" where
  "logged env =
     \<lparr>db_Exec = (\<lambda>q (w, tr). case db_Exec env q w of (r, w1) \<Rightarrow> (r, (w1, tr @ [EvExec q]))),
      db_Query = (\<lambda>(w, tr). case db_Query env w of (r, w1) \<Rightarrow> (r, (w1, tr @ [EvQuery]))),
      es_Update = (\<lambda>index ident body (w, tr).
         case es_Update env index ident body w of
           (r, w1) \<Rightarrow> (r, (w1, tr @ [EvUpdate index ident body]))),
      es_Create = (\<lambda>index ident body (w, tr).
         case es_Create env index ident body w of
           (r, w1) \<Rightarrow> (r, (w1, tr @ [EvCreate index ident body]))),
      es_Delete = (\<lambda>index ident (w, tr).
         case es_Delete env index ident w of
           (r, w1) \<Rightarrow> (r, (w1, tr @ [EvDelete index ident]))),
      time_Now = (\<lambda>(w, tr). case time_Now env w of (t, w1) \<Rightarrow> (t, (w1, tr))),
      http_Get_Unmarshal = (\<lambda>url (w, tr).
         case http_Get_Unmarshal env url w of (r, w1) \<Rightarrow> (r, (w1, tr @ [EvFetch url])))\<rparr>"

section \<open>A reference world\<close>

text \<open>
  A store and an index that do what the statements and requests of the source ask for,
  and never fail for a reason of their own. The tables are lists of rows with the
  column \<^verbatim>\<open>id\<close> as primary key; the documents of the index are JSON objects keyed by
  index name and id. The conversion of the text of a publication date into a timestamp
  is the store's; it is a parameter, \<^term>\<open>None\<close> where the store rejects the text.
  Constraints other than the primary keys are not part of the source and are left out.
\<close>

record SiteRow =
  site_id :: string
  site_url :: string
  site_title :: string
  site_link :: string
  site_description :: string

record ArticleRow =
  article_id :: string
  article_title :: string
  article_link :: string
  article_description :: string
  article_pubdate :: "int option"
  article_site_id :: string

type_synonym document = "(string \<times> json) list"

record world =
  Sites :: "SiteRow list"
  Articles :: "ArticleRow list"
  documents :: "string \<times> string \<rightharpoonup> document"
  clock :: "nat \<Rightarrow> int"
  web :: "string \<rightharpoonup> Rss"

text \<open>
  \<^verbatim>\<open>INSERT INTO Sites VALUES (...) ON CONFLICT (id) DO UPDATE SET title = EXCLUDED.title,
  description = EXCLUDED.description\<close>, and the same statement on \<^verbatim>\<open>Articles\<close>.
\<close>

fun upsert_site :: "SiteRow \<Rightarrow> SiteRow list \<Rightarrow> SiteRow list" where
  "upsert_site new [] = [new]"
| "upsert_site new (r # rs) =
     (if site_id r = site_id new
      then r\<lparr>site_title := site_title new, site_description := site_description new\<rparr> # rs
      else r # upsert_site new rs)"

fun upsert_article :: "ArticleRow \<Rightarrow> ArticleRow list \<Rightarrow> ArticleRow list" where
  "upsert_article new [] = [new]"
| "upsert_article new (r # rs) =
     (if article_id r = article_id new
      then r\<lparr>article_title := article_title new,
             article_description := article_description new\<rparr> # rs
      else r # upsert_article new rs)"

definition store_Exec :: "(string \<Rightarrow> int option) \<Rightarrow> sql \<Rightarrow> world \<Rightarrow> error option \<times> world" where
  "store_Exec timestamp q w =
     (case q of
        UpsertSite i u t l d \<Rightarrow>
          (None, w\<lparr>Sites := upsert_site
             \<lparr>site_id = i, site_url = u, site_title = t, site_link = l, site_description = d\<rparr>
             (Sites w)\<rparr>)
      | UpsertArticle i t l d p s \<Rightarrow>
          (case timestamp p of
             None \<Rightarrow> (Some (LibError ''pq: invalid input syntax for type timestamp''), w)
           | Some tm \<Rightarrow>
               (None, w\<lparr>Articles := upsert_article
                  \<lparr>article_id = i, article_title = t, article_link = l, article_description = d,
                   article_pubdate = Some tm, article_site_id = s\<rparr>
                  (Articles w)\<rparr>))
      | DeleteArticle i \<Rightarrow> (None, w\<lparr>Articles := filter (\<lambda>r. article_id r \<noteq> i) (Articles w)\<rparr>))"

text \<open>\<^verbatim>\<open>SELECT id, pubdate from Articles\<close>, each row scanned into an id and a \<^verbatim>\<open>sql.NullTime\<close>.\<close>

definition scan_row :: "ArticleRow \<Rightarrow> error + string \<times> NullTime" where
  "scan_row r =
     Inr (article_id r,
          case article_pubdate r of
            None \<Rightarrow> \<lparr>Time = zeroTime, Valid = False\<rparr>
          | Some t \<Rightarrow> \<lparr>Time = t, Valid = True\<rparr>)"

definition store_Query :: "world \<Rightarrow> (error + (error + string \<times> NullTime) list) \<times> world" where
  "store_Query w = (Inr (map scan_row (Articles w)), w)"

text \<open>
  The index: a partial update merges the fields under \<^verbatim>\<open>doc\<close> into the document and
  answers 404 where there is none; a create answers 409 where there is one; a delete
  answers 404 where there is none.
\<close>

definition response :: "int \<Rightarrow> string \<Rightarrow> es_result" where
  "response status body = (Some \<lparr>StatusCode = status, Body = Inr body\<rparr>, None)"

definition merge_fields :: "document \<Rightarrow> document \<Rightarrow> document" where
  "merge_fields upd doc = foldl (\<lambda>d (k, v). AList.update k v d) doc upd"

definition index_Update :: "string \<Rightarrow> string \<Rightarrow> json \<Rightarrow> world \<Rightarrow> es_result \<times> world" where
  "index_Update index ident body w =
     (case documents w (index, ident) of
        None \<Rightarrow> (response 404 ''document_missing_exception'', w)
      | Some doc \<Rightarrow>
          (case body of
             JObject kvs \<Rightarrow>
               (case map_of kvs ''doc'' of
                  Some (JObject upd) \<Rightarrow>
                    (response 200 ''updated'',
                     w\<lparr>documents := (documents w)((index, ident) \<mapsto> merge_fields upd doc)\<rparr>)
                | _ \<Rightarrow> (response 400 ''action_request_validation_exception'', w))
           | _ \<Rightarrow> (response 400 ''parsing_exception'', w)))"

definition index_Create :: "string \<Rightarrow> string \<Rightarrow> json \<Rightarrow> world \<Rightarrow> es_result \<times> world" where
  "index_Create index ident body w =
     (case documents w (index, ident) of
        Some old \<Rightarrow> (response 409 ''version_conflict_engine_exception'', w)
      | None \<Rightarrow>
          (case body of
             JObject doc \<Rightarrow>
               (response 201 ''created'',
                w\<lparr>documents := (documents w)((index, ident) \<mapsto> doc)\<rparr>)
           | _ \<Rightarrow> (response 400 ''parsing_exception'', w)))"

definition index_Delete :: "string \<Rightarrow> string \<Rightarrow> world \<Rightarrow> es_result \<times> world" where
  "index_Delete index ident w =
     (case documents w (index, ident) of
        None \<Rightarrow> (response 404 ''not_found'', w)
      | Some doc \<Rightarrow>
          (response 200 ''deleted'', w\<lparr>documents := (documents w)((index, ident) := None)\<rparr>))"

definition clock_Now :: "world \<Rightarrow> int \<times> world" where
  "clock_Now w = (clock w 0, w\<lparr>clock := (\<lambda>n. clock w (Suc n))\<rparr>)"

definition web_Get :: "string \<Rightarrow> world \<Rightarrow> (error + Rss) \<times> world" where
  "web_Get url w =
     (case web w url of
        None \<Rightarrow> (Inl (LibError ''no such host''), w)
      | Some rss \<Rightarrow> (Inr rss, w))"

definition reference :: "(string \<Rightarrow> int option) \<Rightarrow> world env" where
  "reference timestamp =
     \<lparr>db_Exec = store_Exec timestamp,
      db_Query = store_Query,
      es_Update = index_Update,
      es_Create = index_Create,
      es_Delete = index_Delete,
      time_Now = clock_Now,
      http_Get_Unmarshal = web_Get\<rparr>"

section \<open>Worlds and environments of the examples\<close>

definition world0 :: world where
  "world0 =
     \<lparr>Sites = [], Articles = [], documents = Map.empty, clock = (\<lambda>n. 0), web = Map.empty\<rparr>"

text \<open>An index that cannot be reached for an update: no response, an error.\<close>

definition unreachable_index :: "'w env \<Rightarrow> 'w env" where
  "unreachable_index env =
     env\<lparr>es_Update := (\<lambda>index ident body w. ((None, Some (LibError ''connection refused'')), w))\<rparr>"

text \<open>An index that answers every update with the given status and no error.\<close>

definition rejecting_index :: "int \<Rightarrow> 'w env \<Rightarrow> 'w env" where
  "rejecting_index status env =
     env\<lparr>es_Update := (\<lambda>index ident body w.
        ((Some \<lparr>StatusCode = status, Body = Inr ''rejected''\<rparr>, None), w))\<rparr>"

text \<open>The bodies of the two index requests, as \<^verbatim>\<open>json.Marshal\<close> writes them.\<close>

definition update_body :: "string \<Rightarrow> string \<Rightarrow> json" where
  "update_body title description =
     JObject [(''doc'', JObject [(''title'', JString title), (''description'', JString description)])]"

definition create_body :: "string \<Rightarrow> string \<Rightarrow> json" where
  "create_body title description =
     JObject [(''title'', JString title), (''description'', JString description)]"

text \<open>
  The feed of the example: a valid item, an item with an empty description, a valid
  item. Every text is a timestamp for the store of the example.
\<close>

definition item1 :: Item where
  "item1 = \<lparr>Item_Title = ''I1'', Item_Link = ''http://a/1'', Item_Description = ''D1'',
             Item_PubDate = ''P1''\<rparr>"

definition item2 :: Item where
  "item2 = \<lparr>Item_Title = ''I2'', Item_Link = ''http://a/2'', Item_Description = [],
             Item_PubDate = ''P2''\<rparr>"

definition item3 :: Item where
  "item3 = \<lparr>Item_Title = ''I3'', Item_Link = ''http://a/3'', Item_Description = ''D3'',
             Item_PubDate = ''P3''\<rparr>"

definition channel0 :: Channel where
  "channel0 = \<lparr>Channel_Title = ''T'', Channel_Link = ''http://a'', Channel_Description = ''D'',
                Channel_Items = []\<rparr>"

definition any_timestamp :: "string \<Rightarrow> int option" where
  "any_timestamp s = Some 0"

text \<open>
  The words of the reaper's contract, ``a failure at either deletion step'': the store
  reports an error for the delete statement, or the index reports an error or answers
  with an error status for the delete request. The last argument is the world the
  failing call leaves.
\<close>

definition deletion_fails :: "'w env \<Rightarrow> string \<Rightarrow> 'w \<Rightarrow> 'w \<Rightarrow> bool" where
  "deletion_fails env ident w wx =
     (case db_Exec env (DeleteArticle ident) w of
        (Some err, w2) \<Rightarrow> wx = w2
      | (None, w2) \<Rightarrow>
          (case es_Delete env ''articles'' ident w2 of
             ((res, Some err), w3) \<Rightarrow> wx = w3
           | ((Some res, None), w3) \<Rightarrow> IsError res \<and> wx = w3
           | ((None, None), w3) \<Rightarrow> False))"

text \<open>The delete requests in a log.\<close>

fun is_store_delete :: "event \<Rightarrow> bool" where
  "is_store_delete (EvExec (DeleteArticle i)) = True"
| "is_store_delete e = False"

fun is_index_delete :: "event \<Rightarrow> bool" where
  "is_index_delete (EvDelete index i) = (index = ''articles'')"
| "is_index_delete e = False"

text \<open>
  Worlds for the reaper. The clock shows one nanosecond more than the retention window;
  the articles were published at the instants 0 and 2.
\<close>

definition stale_article :: ArticleRow where
  "stale_article = \<lparr>article_id = ''b2xk'', article_title = ''O'', article_link = ''old'',
     article_description = ''D'', article_pubdate = Some 0, article_site_id = ''S''\<rparr>"

definition fresh_article :: ArticleRow where
  "fresh_article = \<lparr>article_id = ''bmV3'', article_title = ''N'', article_link = ''new'',
     article_description = ''D'', article_pubdate = Some 2, article_site_id = ''S''\<rparr>"

definition doc0 :: document where
  "doc0 = [(''title'', JString ''O''), (''description'', JString ''D'')]"

definition world_reap :: world where
  "world_reap = \<lparr>Sites = [], Articles = [fresh_article, stale_article],
     documents = [(''articles'', ''bmV3'') \<mapsto> doc0, (''articles'', ''b2xk'') \<mapsto> doc0],
     clock = (\<lambda>n. 259200000000001), web = Map.empty\<rparr>"

text \<open>A world whose index lacks the document of the first of two outdated articles.\<close>

definition expired_article :: ArticleRow where
  "expired_article = \<lparr>article_id = ''ZXhw'', article_title = ''E'', article_link = ''exp'',
     article_description = ''D'', article_pubdate = Some 0, article_site_id = ''S''\<rparr>"

definition world_split :: world where
  "world_split = \<lparr>Sites = [], Articles = [stale_article, expired_article],
     documents = [(''articles'', ''ZXhw'') \<mapsto> doc0],
     clock = (\<lambda>n. 259200000000001), web = Map.empty\<rparr>"

section \<open>What a feed task may request\<close>

text \<open>The log of a run of a logged environment.\<close>

definition requests :: "'a \<times> 'w \<times> event list \<Rightarrow> event list" where
  "requests r = snd (snd r)"

text \<open>
  The requests that \<^verbatim>\<open>pushArticles\<close> can issue for one item, and \<^verbatim>\<open>pushSite\<close> for a
  channel: the upsert statement, the partial update of the index and the create.
\<close>

definition article_requests :: "string \<Rightarrow> Item \<Rightarrow> event list" where
  "article_requests siteId article =
     [EvExec (UpsertArticle (EncodeToString (Item_Link article)) (sanitize (Item_Title article))
        (sanitize (Item_Link article)) (sanitize (Item_Description article))
        (sanitize (Item_PubDate article)) siteId),
      EvUpdate ''articles'' (EncodeToString (Item_Link article))
        (update_body (sanitize (Item_Title article)) (sanitize (Item_Description article))),
      EvCreate ''articles'' (EncodeToString (Item_Link article))
        (create_body (sanitize (Item_Title article)) (sanitize (Item_Description article)))]"

definition site_requests :: "string \<Rightarrow> Channel \<Rightarrow> event list" where
  "site_requests feedUrl channel =
     [EvExec (UpsertSite (EncodeToString feedUrl) feedUrl (sanitize (Channel_Title channel))
        (sanitize (Channel_Link channel)) (sanitize (Channel_Description channel))),
      EvUpdate ''sites'' (EncodeToString feedUrl)
        (update_body (sanitize (Channel_Title channel)) (sanitize (Channel_Description channel))),
      EvCreate ''sites'' (EncodeToString feedUrl)
        (create_body (sanitize (Channel_Title channel)) (sanitize (Channel_Description channel)))]"

text \<open>
  A request carries a derived id: a site request the encoding of the feed URL, with the
  URL itself as \<^verbatim>\<open>url\<close>; an article request the encoding of the link of an item
  of the feed, the statement with the sanitized link as \<^verbatim>\<open>link\<close>.
\<close>

fun site_id_derived :: "string \<Rightarrow> event \<Rightarrow> bool" where
  "site_id_derived feedUrl (EvExec (UpsertSite i u t l d)) =
     (i = EncodeToString feedUrl \<and> u = feedUrl)"
| "site_id_derived feedUrl (EvUpdate index i body) =
     (index = ''sites'' \<and> i = EncodeToString feedUrl)"
| "site_id_derived feedUrl (EvCreate index i body) =
     (index = ''sites'' \<and> i = EncodeToString feedUrl)"
| "site_id_derived feedUrl e = False"

fun article_id_derived :: "Item list \<Rightarrow> event \<Rightarrow> bool" where
  "article_id_derived items (EvExec (UpsertArticle i t l d p s)) =
     list_ex (\<lambda>article. i = EncodeToString (Item_Link article) \<and>
                        l = sanitize (Item_Link article)) items"
| "article_id_derived items (EvUpdate index i body) =
     (index = ''articles'' \<and> list_ex (\<lambda>article. i = EncodeToString (Item_Link article)) items)"
| "article_id_derived items (EvCreate index i body) =
     (index = ''articles'' \<and> list_ex (\<lambda>article. i = EncodeToString (Item_Link article)) items)"
| "article_id_derived items e = False"

text \<open>An item whose link, and a feed URL that, holds a single quote.\<close>

definition quoted_item :: Item where
  "quoted_item = \<lparr>Item_Title = ''I'', Item_Link = [CHR ''a'', CHR 0x27], Item_Description = ''D'',
     Item_PubDate = ''P''\<rparr>"

definition quoted_url :: string where
  "quoted_url = [CHR ''u'', CHR 0x27]"

text \<open>
  The body of an index request holds the fields \<^verbatim>\<open>title\<close> and \<^verbatim>\<open>description\<close>
  and no other: directly for a create, under \<^verbatim>\<open>doc\<close> for a partial update.
\<close>

fun index_body_ok :: "event \<Rightarrow> bool" where
  "index_body_ok (EvUpdate index i body) =
     (case body of
        JObject [(k, JObject [(k1, JString t), (k2, JString d)])] \<Rightarrow>
          k = ''doc'' \<and> k1 = ''title'' \<and> k2 = ''description''
      | _ \<Rightarrow> False)"
| "index_body_ok (EvCreate index i body) =
     (case body of
        JObject [(k1, JString t), (k2, JString d)] \<Rightarrow> k1 = ''title'' \<and> k2 = ''description''
      | _ \<Rightarrow> False)"
| "index_body_ok e = True"

text \<open>
  A world that knows a site and an article; the document of the site has a field of its
  own beside the two the program writes.
\<close>

definition known_site :: SiteRow where
  "known_site = \<lparr>site_id = ''dQ=='', site_url = ''u'', site_title = ''old title'',
     site_link = ''old link'', site_description = ''old description''\<rparr>"

definition known_article :: ArticleRow where
  "known_article = \<lparr>article_id = ''bA=='', article_title = ''old title'',
     article_link = ''l'', article_description = ''old description'',
     article_pubdate = Some 7, article_site_id = ''dQ==''\<rparr>"

definition known_document :: document where
  "known_document = [(''title'', JString ''old title''),
     (''description'', JString ''old description''), (''lang'', JString ''en'')]"

definition world_known :: world where
  "world_known = \<lparr>Sites = [known_site], Articles = [known_article],
     documents = [(''sites'', ''dQ=='') \<mapsto> known_document],
     clock = (\<lambda>n. 0), web = Map.empty\<rparr>"

text \<open>A world whose network serves a feed of one valid item at the URL \<open>u\<close>.\<close>

definition world_web :: world where
  "world_web = \<lparr>Sites = [], Articles = [], documents = Map.empty, clock = (\<lambda>n. 0),
     web = [''u'' \<mapsto> \<lparr>Rss_Channel = channel0\<lparr>Channel_Items := [item1]\<rparr>\<rparr>]\<rparr>"

text \<open>
  The words of the reaper's contract on the reference world: the ids of the articles
  whose age, at the instant their row is examined, exceeds the retention window. The
  publication date of a row is the instant the scan gives for it.
\<close>

definition pub_time :: "ArticleRow \<Rightarrow> int" where
  "pub_time r = (case article_pubdate r of None \<Rightarrow> zeroTime | Some t \<Rightarrow> t)"

fun outdated_ids :: "(nat \<Rightarrow> int) \<Rightarrow> ArticleRow list \<Rightarrow> string list" where
  "outdated_ids clk [] = []"
| "outdated_ids clk (r # rs) =
     (if clk 0 - pub_time r > articleThreshold then [article_id r] else []) @
     outdated_ids (\<lambda>n. clk (Suc n)) rs"

text \<open>
  The worlds that the reference clock, store and index leave when the reaper reads the
  time, deletes the row of an id and deletes the document of an id.
\<close>

definition after_clock :: "world \<Rightarrow> world" where
  "after_clock w = w\<lparr>clock := (\<lambda>n. clock w (Suc n))\<rparr>"

definition after_store_delete :: "string \<Rightarrow> world \<Rightarrow> world" where
  "after_store_delete ident w =
     w\<lparr>Articles := filter (\<lambda>x. article_id x \<noteq> ident) (Articles w)\<rparr>"

definition after_index_delete :: "string \<Rightarrow> world \<Rightarrow> world" where
  "after_index_delete ident w =
     w\<lparr>documents := (documents w)((''articles'', ident) := None)\<rparr>"

text \<open>
  A world for the boundary: at the instant the clock shows, the four articles have the
  age of the window less one nanosecond, of the window, and of the window plus one
  nanosecond (twice); the index lacks the document of the last one.
\<close>

definition due_article :: ArticleRow where
  "due_article = \<lparr>article_id = ''ZHVl'', article_title = ''B'', article_link = ''due'',
     article_description = ''D'', article_pubdate = Some 1, article_site_id = ''S''\<rparr>"

definition world_sweep :: world where
  "world_sweep = \<lparr>Sites = [],
     Articles = [fresh_article, due_article, stale_article, expired_article],
     documents = [(''articles'', ''bmV3'') \<mapsto> doc0, (''articles'', ''ZHVl'') \<mapsto> doc0,
                  (''articles'', ''b2xk'') \<mapsto> doc0],
     clock = (\<lambda>n. 259200000000001), web = Map.empty\<rparr>"

section \<open>The index upsert\<close>

lemma Marshal_ESUpdatePayload_body:
  "Marshal_ESUpdatePayload \<lparr>Doc = \<lparr>Title = title, Description = description\<rparr>\<rparr> =
     (update_body title description, None)"
  by (simp add: Marshal_ESUpdatePayload_def Marshal_ESPayload_def update_body_def)

lemma Marshal_ESPayload_body:
  "Marshal_ESPayload \<lparr>Title = title, Description = description\<rparr> =
     (create_body title description, None)"
  by (simp add: Marshal_ESPayload_def create_body_def)

text \<open>
  The runs of the index upsert, by what the index answers: the update is sent first; a
  status 404 is followed by a create; an error status of the create whose body can be
  read is returned as an error; in every other run that returns, the error returned is
  the one the update call gave beside its response.
\<close>

lemma pushToES_cases:
  "pushToES env index ident title description w =
     (case es_Update env index ident (update_body title description) w of
        ((None, err), w1) \<Rightarrow> (Panic, w1)
      | ((Some res, err), w1) \<Rightarrow>
          if StatusCode res = 404 then
            (case es_Create env index ident (create_body title description) w1 of
               ((None, err3), w2) \<Rightarrow> (Panic, w2)
             | ((Some res2, err3), w2) \<Rightarrow>
                 (case Body res2 of
                    Inr errBody \<Rightarrow>
                      if StatusCode res2 > 299
                      then (Ret (Some (ESError (StatusCode res2) errBody)), w2)
                      else (Ret err, w2)
                  | Inl err4 \<Rightarrow> (Ret err, w2)))
          else (Ret err, w1))"
  by (simp add: pushToES_def Marshal_ESUpdatePayload_def Marshal_ESPayload_def update_body_def
      create_body_def IsError_def Let_def split: prod.splits option.splits sum.splits)

lemma pushToES_nil_response:
  "es_Update env index ident (update_body title description) w = ((None, err), w1)
   \<Longrightarrow> pushToES env index ident title description w = (Panic, w1)"
  by (simp add: pushToES_cases)

text \<open>
  Claim C1, at the input where it fails: the index answers the update with status 500
  and no transport error. The claim says that this index error is returned as the error
  of the write; \<^verbatim>\<open>pushArticleToES\<close> and \<^verbatim>\<open>pushSiteToES\<close> return nil, as after
  a successful write.
\<close>

theorem update_error_status_is_swallowed:
  "pushArticleToES (rejecting_index 500 (reference Map.empty)) ''YQ=='' ''t'' ''d'' world0
     = (Ret None, world0) \<and>
   pushSiteToES (rejecting_index 500 (reference Map.empty)) ''YQ=='' ''t'' ''d'' world0
     = (Ret None, world0)"
  by (simp add: pushArticleToES_def pushSiteToES_def pushToES_cases rejecting_index_def)

text \<open>
  Claim C10: when the update call of the index gives no response (a nil response, as it
  does beside a transport error), \<^verbatim>\<open>pushArticleToES\<close> and \<^verbatim>\<open>pushSiteToES\<close> panic:
  the response is dereferenced before the error is looked at, and no error is returned.
\<close>

theorem nil_response_panics:
  "(es_Update env ''articles'' ident (update_body title description) w = ((None, err), w1)
      \<longrightarrow> pushArticleToES env ident title description w = (Panic, w1)) \<and>
   (es_Update env ''sites'' ident (update_body title description) w = ((None, err), w1)
      \<longrightarrow> pushSiteToES env ident title description w = (Panic, w1))"
  by (simp add: pushArticleToES_def pushSiteToES_def pushToES_nil_response)

theorem nil_response_panics_witness:
  "es_Update (unreachable_index (reference Map.empty)) ''articles'' ''YQ==''
       (update_body ''t'' ''d'') world0
     = ((None, Some (LibError ''connection refused'')), world0) \<and>
   es_Update (unreachable_index (reference Map.empty)) ''sites'' ''YQ==''
       (update_body ''t'' ''d'') world0
     = ((None, Some (LibError ''connection refused'')), world0) \<and>
   pushArticleToES (unreachable_index (reference Map.empty)) ''YQ=='' ''t'' ''d'' world0
     = (Panic, world0) \<and>
   pushSiteToES (unreachable_index (reference Map.empty)) ''YQ=='' ''t'' ''d'' world0
     = (Panic, world0)"
proof -
  let ?env = "unreachable_index (reference Map.empty)"
  let ?err = "Some (LibError ''connection refused'')"
  have a: "es_Update ?env ''articles'' ''YQ=='' (update_body ''t'' ''d'') world0
     = ((None, ?err), world0)"
    by (simp add: unreachable_index_def)
  have s: "es_Update ?env ''sites'' ''YQ=='' (update_body ''t'' ''d'') world0
     = ((None, ?err), world0)"
    by (simp add: unreachable_index_def)
  from nil_response_panics [of ?env "''YQ==''" "''t''" "''d''" world0 ?err world0]
  show ?thesis using a s by blast
qed

section \<open>The loop over the items\<close>

lemma EncodeToString_item1: "EncodeToString ''http://a/1'' = ''aHR0cDovL2EvMQ==''"
  by (simp add: sextet_def encodeURL_def)

lemma pushArticles_loop_stops:
  "Item_Title b = [] \<or> Item_Link b = [] \<or> Item_Description b = []
   \<Longrightarrow> pushArticles_loop env siteId (xs @ b # ys) w = pushArticles_loop env siteId xs w"
proof (induction xs arbitrary: w)
  case Nil
  then show ?case by auto
next
  case (Cons x xs)
  then show ?case
    by (simp add: Let_def split: prod.splits option.splits outcome.splits)
qed

lemma pushArticles_loop_item1:
  "pushArticles_loop (logged (reference any_timestamp)) ''S'' [item1] (world0, []) =
    (Ret (),
     world0\<lparr>Articles :=
         [\<lparr>article_id = ''aHR0cDovL2EvMQ=='', article_title = ''I1'',
           article_link = ''http://a/1'', article_description = ''D1'',
           article_pubdate = Some 0, article_site_id = ''S''\<rparr>],
       documents := [(''articles'', ''aHR0cDovL2EvMQ=='') \<mapsto> 
         [(''title'', JString ''I1''), (''description'', JString ''D1'')]]\<rparr>,
     [EvExec (UpsertArticle ''aHR0cDovL2EvMQ=='' ''I1'' ''http://a/1'' ''D1'' ''P1'' ''S''),
      EvUpdate ''articles'' ''aHR0cDovL2EvMQ=='' (update_body ''I1'' ''D1''),
      EvCreate ''articles'' ''aHR0cDovL2EvMQ=='' (create_body ''I1'' ''D1'')])"
  by (simp add: EncodeToString_item1 item1_def sanitize_def pushArticleToDB_def
      pushArticleToES_def pushToES_cases logged_def reference_def store_Exec_def
      index_Update_def index_Create_def world0_def response_def update_body_def
      create_body_def any_timestamp_def Let_def del: EncodeToString.simps)

text \<open>
  Claim C2: an item with an empty title, link or description ends the processing of the
  feed's items. Whatever the store and the index do, the run on the items
  \<open>xs @ b # ys\<close> with such an item \<open>b\<close> is the run on \<open>xs\<close>: the same outcome, the
  same world and, for a logged environment, the same requests. For the feed of a valid,
  an invalid and a valid item and an empty store and index, the first item alone is
  written and no request is issued for the third.
\<close>

theorem pushArticles_stops_at_invalid_item:
  assumes "Item_Title b = [] \<or> Item_Link b = [] \<or> Item_Description b = []"
  shows "pushArticles env siteId \<lparr>Rss_Channel = ch\<lparr>Channel_Items := xs @ b # ys\<rparr>\<rparr> w =
         pushArticles env siteId \<lparr>Rss_Channel = ch\<lparr>Channel_Items := xs\<rparr>\<rparr> w"
  using assms by (simp add: pushArticles_def pushArticles_loop_stops)

theorem pushArticles_stops_at_invalid_item_witness:
  "Item_Description item2 = [] \<and>
   pushArticles (logged (reference any_timestamp)) ''S''
       \<lparr>Rss_Channel = channel0\<lparr>Channel_Items := [item1, item2, item3]\<rparr>\<rparr> (world0, []) =
     (Ret (),
      world0\<lparr>Articles :=
          [\<lparr>article_id = ''aHR0cDovL2EvMQ=='', article_title = ''I1'',
            article_link = ''http://a/1'', article_description = ''D1'',
            article_pubdate = Some 0, article_site_id = ''S''\<rparr>],
        documents := [(''articles'', ''aHR0cDovL2EvMQ=='') \<mapsto> 
          [(''title'', JString ''I1''), (''description'', JString ''D1'')]]\<rparr>,
      [EvExec (UpsertArticle ''aHR0cDovL2EvMQ=='' ''I1'' ''http://a/1'' ''D1'' ''P1'' ''S''),
       EvUpdate ''articles'' ''aHR0cDovL2EvMQ=='' (update_body ''I1'' ''D1''),
       EvCreate ''articles'' ''aHR0cDovL2EvMQ=='' (create_body ''I1'' ''D1'')])"
proof -
  have h: "Item_Title item2 = [] \<or> Item_Link item2 = [] \<or> Item_Description item2 = []"
    by (simp add: item2_def)
  have d: "Item_Description item2 = []"
    by (simp add: item2_def)
  have "pushArticles (logged (reference any_timestamp)) ''S''
          \<lparr>Rss_Channel = channel0\<lparr>Channel_Items := [item1] @ item2 # [item3]\<rparr>\<rparr> (world0, []) =
        pushArticles (logged (reference any_timestamp)) ''S''
          \<lparr>Rss_Channel = channel0\<lparr>Channel_Items := [item1]\<rparr>\<rparr> (world0, [])"
    by (rule pushArticles_stops_at_invalid_item [OF h])
  then show ?thesis
    using d by (simp add: pushArticles_def pushArticles_loop_item1 del: pushArticles_loop.simps)
qed

section \<open>The reaper\<close>

lemma cleanOutdated_loop_append:
  "cleanOutdated_loop env (pre @ rest) acc w =
     (case cleanOutdated_loop env pre acc w of
        (Ret acc1, w1) \<Rightarrow> cleanOutdated_loop env rest acc1 w1
      | (Panic, w1) \<Rightarrow> (Panic, w1)
      | (Exit, w1) \<Rightarrow> (Exit, w1))"
proof (induction env pre acc w rule: cleanOutdated_loop.induct)
  case (1 env scannedCount deleteCount w)
  then show ?case by simp
next
  case (2 env err rows scannedCount deleteCount w)
  then show ?case by simp
next
  case (3 env ident pubDate rows scannedCount deleteCount w)
  then show ?case
    by (simp split: prod.splits option.splits)
qed

lemma Sub_gt_threshold: "Sub t u > articleThreshold \<longleftrightarrow> t - u > articleThreshold"
  by (simp add: Sub_def articleThreshold_def Hour_def maxDuration_def minDuration_def)

lemma sweep_fatal:
  assumes reach: "cleanOutdated_loop env pre acc w0 = (Ret (sc, dc), w)"
    and now: "time_Now env w = (now, w1)"
    and old: "Sub now (Time pubDate) > articleThreshold"
    and fails: "deletion_fails env ident w1 wx"
  shows "cleanOutdated_loop env (pre @ Inr (ident, pubDate) # rest) acc w0 = (Exit, wx)"
  using assms
  by (auto simp add: cleanOutdated_loop_append deletion_fails_def
      split: prod.splits option.splits)

lemma logged_loop_counts:
  "cleanOutdated_loop (logged env) rows (sc, dc) (w, tr) = (Ret (sc1, dc1), (w1, tr1))
   \<Longrightarrow> sc1 = sc + length rows \<and>
       (\<exists>new. tr1 = tr @ new \<and> dc1 = dc + length (filter is_store_delete new) \<and>
          dc1 = dc + length (filter is_index_delete new))"
proof (induction rows arbitrary: sc dc w tr)
  case Nil
  then show ?case by simp
next
  case (Cons row rows)
  show ?case
  proof (cases row)
    case (Inl e)
    with Cons.prems show ?thesis by simp
  next
    case (Inr p)
    obtain ident pubDate where p: "p = (ident, pubDate)" by (cases p)
    obtain now w2 where n: "time_Now env w = (now, w2)" by (cases "time_Now env w")
    show ?thesis
    proof (cases "Sub now (Time pubDate) > articleThreshold")
      case False
      with Cons.prems Inr p n
      have "cleanOutdated_loop (logged env) rows (sc + 1, dc) (w2, tr) = (Ret (sc1, dc1), (w1, tr1))"
        by (simp add: logged_def)
      from Cons.IH [OF this] show ?thesis by auto
    next
      case True
      obtain e3 w3 where d: "db_Exec env (DeleteArticle ident) w2 = (e3, w3)"
        by (cases "db_Exec env (DeleteArticle ident) w2")
      obtain r4 e4 w4 where x: "es_Delete env ''articles'' ident w3 = ((r4, e4), w4)"
        by (cases "es_Delete env ''articles'' ident w3") auto
      from Cons.prems Inr p n True d x
      have "cleanOutdated_loop (logged env) rows (sc + 1, dc + 1)
              (w4, tr @ [EvExec (DeleteArticle ident), EvDelete ''articles'' ident])
            = (Ret (sc1, dc1), (w1, tr1))"
        by (simp add: logged_def split: option.splits if_splits)
      from Cons.IH [OF this] show ?thesis by auto
    qed
  qed
qed

lemmas reference_simps = reference_def store_Exec_def store_Query_def index_Delete_def
  clock_Now_def scan_row_def response_def IsError_def

lemma articleThreshold_value: "articleThreshold = 259200000000000"
  by (simp add: articleThreshold_def Hour_def)

lemma sweep_world_reap:
  "cleanOutdated (reference any_timestamp) world_reap =
     (Ret (2, 1), world_reap\<lparr>Articles := [fresh_article],
        documents := [(''articles'', ''bmV3'') \<mapsto> doc0]\<rparr>)"
  by (simp add: cleanOutdated_def reference_simps world_reap_def stale_article_def
      fresh_article_def Sub_def maxDuration_def minDuration_def articleThreshold_value)

text \<open>
  Claim C9: when the sweep reaches an outdated row and its deletion fails, in the store
  or in the index, \<^verbatim>\<open>cleanOutdated\<close> ends the process in the world the failing call
  left, whatever rows remain. A sweep that returns reports the number of rows of the
  query and the number of deletions, which is the number of delete statements and of
  delete requests it issued.
\<close>

theorem reaper_failure_is_fatal:
  "(db_Query env v0 = (Inr (pre @ Inr (ident, pubDate) # rest), w0) \<and>
    cleanOutdated_loop env pre (0, 0) w0 = (Ret (sc, dc), w) \<and>
    time_Now env w = (now, w1) \<and>
    Sub now (Time pubDate) > articleThreshold \<and>
    deletion_fails env ident w1 wx
    \<longrightarrow> cleanOutdated env v0 = (Exit, wx)) \<and>
   (cleanOutdated (logged env) (v, []) = (Ret (scanned, deleted), (v1, tr))
    \<longrightarrow> (\<exists>rows. fst (db_Query env v) = Inr rows \<and> scanned = length rows) \<and>
        deleted = length (filter is_store_delete tr) \<and>
        deleted = length (filter is_index_delete tr))"
proof (intro conjI impI)
  assume "db_Query env v0 = (Inr (pre @ Inr (ident, pubDate) # rest), w0) \<and>
    cleanOutdated_loop env pre (0, 0) w0 = (Ret (sc, dc), w) \<and>
    time_Now env w = (now, w1) \<and>
    Sub now (Time pubDate) > articleThreshold \<and>
    deletion_fails env ident w1 wx"
  then show "cleanOutdated env v0 = (Exit, wx)"
    by (simp add: cleanOutdated_def sweep_fatal)
next
  assume run: "cleanOutdated (logged env) (v, []) = (Ret (scanned, deleted), (v1, tr))"
  obtain q v2 where q: "db_Query env v = (q, v2)" by (cases "db_Query env v")
  from run q obtain rows where rows: "q = Inr rows"
    and loop: "cleanOutdated_loop (logged env) rows (0, 0) (v2, [EvQuery]) =
                 (Ret (scanned, deleted), (v1, tr))"
    by (cases q) (auto simp add: cleanOutdated_def logged_def)
  from logged_loop_counts [OF loop] obtain new where
    c: "scanned = length rows" "tr = [EvQuery] @ new"
       "deleted = length (filter is_store_delete new)"
       "deleted = length (filter is_index_delete new)"
    by auto
  from q rows c(1) show "\<exists>rows. fst (db_Query env v) = Inr rows \<and> scanned = length rows"
    by simp
  from c show "deleted = length (filter is_store_delete tr)" by simp
  from c show "deleted = length (filter is_index_delete tr)" by simp
qed

lemma sweep_world_split:
  "cleanOutdated (reference any_timestamp) world_split =
     (Exit, world_split\<lparr>Articles := [expired_article]\<rparr>)"
  by (simp add: cleanOutdated_def reference_simps world_split_def stale_article_def
      expired_article_def Sub_def maxDuration_def minDuration_def articleThreshold_value)

lemma logged_sweep_world_reap:
  "cleanOutdated (logged (reference any_timestamp)) (world_reap, []) =
     (Ret (2, 1),
      world_reap\<lparr>Articles := [fresh_article],
        documents := [(''articles'', ''bmV3'') \<mapsto> doc0]\<rparr>,
      [EvQuery, EvExec (DeleteArticle ''b2xk''), EvDelete ''articles'' ''b2xk''])"
  by (simp add: cleanOutdated_def logged_def reference_simps world_reap_def stale_article_def
      fresh_article_def Sub_def maxDuration_def minDuration_def articleThreshold_value)

theorem reaper_failure_is_fatal_witness:
  "db_Query (reference any_timestamp) world_split =
     (Inr ([] @ Inr (''b2xk'', \<lparr>Time = 0, Valid = True\<rparr>) #
              [Inr (''ZXhw'', \<lparr>Time = 0, Valid = True\<rparr>)]), world_split) \<and>
   time_Now (reference any_timestamp) world_split = (259200000000001, world_split) \<and>
   Sub 259200000000001 (Time \<lparr>Time = 0, Valid = True\<rparr>) > articleThreshold \<and>
   deletion_fails (reference any_timestamp) ''b2xk'' world_split
     (world_split\<lparr>Articles := [expired_article]\<rparr>) \<and>
   cleanOutdated (reference any_timestamp) world_split =
     (Exit, world_split\<lparr>Articles := [expired_article]\<rparr>) \<and>
   cleanOutdated (logged (reference any_timestamp)) (world_reap, []) =
     (Ret (2, 1),
      world_reap\<lparr>Articles := [fresh_article],
        documents := [(''articles'', ''bmV3'') \<mapsto> doc0]\<rparr>,
      [EvQuery, EvExec (DeleteArticle ''b2xk''), EvDelete ''articles'' ''b2xk'']) \<and>
   (\<exists>rows. fst (db_Query (reference any_timestamp) world_reap) = Inr rows \<and> 2 = length rows) \<and>
   (1::nat) = length (filter is_store_delete
      [EvQuery, EvExec (DeleteArticle ''b2xk''), EvDelete ''articles'' ''b2xk'']) \<and>
   (1::nat) = length (filter is_index_delete
      [EvQuery, EvExec (DeleteArticle ''b2xk''), EvDelete ''articles'' ''b2xk''])"
proof -
  let ?env = "reference any_timestamp"
  let ?t0 = "\<lparr>Time = 0, Valid = True\<rparr>"
  let ?after = "world_split\<lparr>Articles := [expired_article]\<rparr>"
  let ?final = "world_reap\<lparr>Articles := [fresh_article],
        documents := [(''articles'', ''bmV3'') \<mapsto> doc0]\<rparr>"
  let ?tr = "[EvQuery, EvExec (DeleteArticle ''b2xk''), EvDelete ''articles'' ''b2xk'']"
  have q: "db_Query ?env world_split =
      (Inr ([] @ Inr (''b2xk'', ?t0) # [Inr (''ZXhw'', ?t0)]), world_split)"
    by (simp add: reference_simps world_split_def stale_article_def expired_article_def)
  have r0: "cleanOutdated_loop ?env [] (0, 0) world_split = (Ret (0, 0), world_split)"
    by simp
  have n: "time_Now ?env world_split = (259200000000001, world_split)"
    by (simp add: reference_simps world_split_def)
  have old: "Sub 259200000000001 (Time ?t0) > articleThreshold"
    by (simp add: Sub_def maxDuration_def minDuration_def articleThreshold_value)
  have f: "deletion_fails ?env ''b2xk'' world_split ?after"
    by (simp add: deletion_fails_def reference_simps world_split_def stale_article_def
        expired_article_def)
  have run: "cleanOutdated (logged ?env) (world_reap, []) = (Ret (2, 1), (?final, ?tr))"
    by (rule logged_sweep_world_reap)
  note inst = reaper_failure_is_fatal [of ?env world_split "[]" "''b2xk''" ?t0
      "[Inr (''ZXhw'', ?t0)]" world_split 0 0 world_split 259200000000001 world_split ?after
      world_reap 2 1 ?final ?tr]
  from inst q r0 n old f have exit: "cleanOutdated ?env world_split = (Exit, ?after)"
    by blast
  from inst run have counts:
    "(\<exists>rows. fst (db_Query ?env world_reap) = Inr rows \<and> 2 = length rows) \<and>
     (1::nat) = length (filter is_store_delete ?tr) \<and>
     (1::nat) = length (filter is_index_delete ?tr)"
    by blast
  from q n old f exit run counts show ?thesis by blast
qed

lemma scan_row_pub_time:
  "scan_row r = Inr (article_id r, \<lparr>Time = pub_time r, Valid = (article_pubdate r \<noteq> None)\<rparr>)"
  by (simp add: scan_row_def pub_time_def split: option.splits)

text \<open>
  In the reference world, the state that a sweep that returns leaves: the rows and the
  documents of the articles whose age exceeds the window are gone, and nothing else has
  changed.
\<close>

lemma reference_sel:
  "db_Exec (reference ts) = store_Exec ts"
  "db_Query (reference ts) = store_Query"
  "es_Delete (reference ts) = index_Delete"
  "time_Now (reference ts) = clock_Now"
  by (simp_all add: reference_def)

lemma reference_loop_final_state:
  "cleanOutdated_loop (reference ts) (map scan_row rs) (sc, dc) w = (Ret (sc1, dc1), w1)
   \<Longrightarrow> Articles w1 =
         filter (\<lambda>r. article_id r \<notin> set (outdated_ids (clock w) rs)) (Articles w) \<and>
       documents w1 =
         (\<lambda>k. if fst k = ''articles'' \<and> snd k \<in> set (outdated_ids (clock w) rs) then None
              else documents w k) \<and>
       Sites w1 = Sites w \<and>
       sc1 = sc + length rs \<and> dc1 = dc + length (outdated_ids (clock w) rs)"
proof (induction rs arbitrary: sc dc w)
  case Nil
  then show ?case by auto
next
  case (Cons r rs)
  let ?w1 = "w\<lparr>clock := (\<lambda>n. clock w (Suc n))\<rparr>"
  show ?case
  proof (cases "clock w 0 - pub_time r > articleThreshold")
    case False
    with Cons.prems
    have "cleanOutdated_loop (reference ts) (map scan_row rs) (sc + 1, dc) ?w1 = (Ret (sc1, dc1), w1)"
      by (simp add: scan_row_pub_time [of r] reference_sel clock_Now_def Sub_gt_threshold)
    from Cons.IH [OF this] False show ?thesis by (auto simp add: fun_eq_iff)
  next
    case True
    let ?w3 = "w\<lparr>clock := (\<lambda>n. clock w (Suc n)),
      Articles := filter (\<lambda>x. article_id x \<noteq> article_id r) (Articles w),
      documents := (documents w)((''articles'', article_id r) := None)\<rparr>"
    from Cons.prems True
    have "cleanOutdated_loop (reference ts) (map scan_row rs) (sc + 1, dc + 1) ?w3 = (Ret (sc1, dc1), w1)"
      by (auto simp add: scan_row_pub_time [of r] reference_sel clock_Now_def Sub_gt_threshold
          store_Exec_def index_Delete_def response_def IsError_def split: option.splits)
    from Cons.IH [OF this] True show ?thesis
      by (auto simp add: fun_eq_iff intro: filter_cong)
  qed
qed

lemma reference_sweep_final_state:
  assumes "cleanOutdated (reference ts) w = (Ret (scanned, deleted), w1)"
  shows "Articles w1 =
           filter (\<lambda>r. article_id r \<notin> set (outdated_ids (clock w) (Articles w))) (Articles w) \<and>
         documents w1 =
           (\<lambda>k. if fst k = ''articles'' \<and> snd k \<in> set (outdated_ids (clock w) (Articles w))
                then None else documents w k) \<and>
         Sites w1 = Sites w \<and>
         scanned = length (Articles w) \<and>
         deleted = length (outdated_ids (clock w) (Articles w))"
proof -
  from assms
  have "cleanOutdated_loop (reference ts) (map scan_row (Articles w)) (0, 0) w =
          (Ret (scanned, deleted), w1)"
    by (simp add: cleanOutdated_def reference_sel store_Query_def)
  from reference_loop_final_state [OF this] show ?thesis by simp
qed

lemma outdated_ids_subset: "set (outdated_ids clk rs) \<subseteq> article_id ` set rs"
  by (induction rs arbitrary: clk) auto

lemma outdated_ids_iff:
  "distinct (map article_id rs) \<Longrightarrow> i < length rs \<Longrightarrow>
   article_id (rs ! i) \<in> set (outdated_ids clk rs) \<longleftrightarrow>
     clk i - pub_time (rs ! i) > articleThreshold"
proof (induction rs arbitrary: i clk)
  case Nil
  then show ?case by simp
next
  case (Cons r rs)
  show ?case
  proof (cases i)
    case 0
    from Cons.prems(1) outdated_ids_subset [of "\<lambda>n. clk (Suc n)" rs]
    have "article_id r \<notin> set (outdated_ids (\<lambda>n. clk (Suc n)) rs)"
      by auto
    with 0 show ?thesis by simp
  next
    case (Suc j)
    with Cons.prems have j: "j < length rs" and d: "distinct (map article_id rs)"
      and notin: "article_id r \<notin> article_id ` set rs"
      by auto
    from j have "article_id (rs ! j) \<in> article_id ` set rs"
      by simp
    with notin have ne: "article_id (rs ! j) \<noteq> article_id r"
      by auto
    from Cons.IH [OF d j, of "\<lambda>n. clk (Suc n)"] Suc ne show ?thesis
      by simp
  qed
qed

lemma reference_loop_Cons:
  "cleanOutdated_loop (reference ts) (scan_row r # rows) (sc, dc) w =
     (if clock w 0 - pub_time r > articleThreshold then
        (case documents w (''articles'', article_id r) of
           None \<Rightarrow> (Exit, after_store_delete (article_id r) (after_clock w))
         | Some doc \<Rightarrow>
             cleanOutdated_loop (reference ts) rows (sc + 1, dc + 1)
               (after_index_delete (article_id r)
                  (after_store_delete (article_id r) (after_clock w))))
      else cleanOutdated_loop (reference ts) rows (sc + 1, dc) (after_clock w))"
  by (simp add: scan_row_pub_time [of r] reference_sel clock_Now_def Sub_gt_threshold
      store_Exec_def index_Delete_def response_def IsError_def after_clock_def
      after_store_delete_def after_index_delete_def split: option.splits)

lemma after_simps:
  "Articles (after_clock w) = Articles w"
  "documents (after_clock w) = documents w"
  "clock (after_clock w) = (\<lambda>n. clock w (Suc n))"
  "Articles (after_store_delete i w) = filter (\<lambda>x. article_id x \<noteq> i) (Articles w)"
  "documents (after_store_delete i w) = documents w"
  "clock (after_store_delete i w) = clock w"
  "Articles (after_index_delete i w) = Articles w"
  "documents (after_index_delete i w) = (documents w)((''articles'', i) := None)"
  "clock (after_index_delete i w) = clock w"
  by (simp_all add: after_clock_def after_store_delete_def after_index_delete_def)

lemma map_scan_row_Cons: "map scan_row (r # rs) = scan_row r # map scan_row rs"
  by simp

lemma reference_loop_rows_shrink:
  "cleanOutdated_loop (reference ts) (map scan_row rs) acc w = (out, w1)
   \<Longrightarrow> x \<in> set (Articles w1) \<Longrightarrow> x \<in> set (Articles w)"
proof (induction rs arbitrary: acc w)
  case Nil
  then show ?case by (cases acc) simp
next
  case (Cons r rs)
  obtain sc dc where acc: "acc = (sc, dc)" by (cases acc)
  note run = Cons.prems(1) [unfolded acc map_scan_row_Cons reference_loop_Cons]
  show ?case
  proof (cases "clock w 0 - pub_time r > articleThreshold")
    case False
    with run have "cleanOutdated_loop (reference ts) (map scan_row rs) (sc + 1, dc)
        (after_clock w) = (out, w1)"
      by simp
    from Cons.IH [OF this Cons.prems(2)] show ?thesis
      by (simp add: after_simps)
  next
    case True
    show ?thesis
    proof (cases "documents w (''articles'', article_id r)")
      case None
      with run True have "w1 = after_store_delete (article_id r) (after_clock w)"
        by simp
      with Cons.prems(2) show ?thesis
        by (simp add: after_simps)
    next
      case (Some doc)
      with run True
      have "cleanOutdated_loop (reference ts) (map scan_row rs) (sc + 1, dc + 1)
          (after_index_delete (article_id r)
             (after_store_delete (article_id r) (after_clock w))) = (out, w1)"
        by simp
      from Cons.IH [OF this Cons.prems(2)] show ?thesis
        by (simp add: after_simps)
    qed
  qed
qed

lemma reference_loop_rows_kept:
  "cleanOutdated_loop (reference ts) (map scan_row rs) acc w = (out, w1)
   \<Longrightarrow> x \<in> set (Articles w) \<Longrightarrow> article_id x \<notin> article_id ` set rs
   \<Longrightarrow> x \<in> set (Articles w1)"
proof (induction rs arbitrary: acc w)
  case Nil
  then show ?case by (cases acc) simp
next
  case (Cons r rs)
  obtain sc dc where acc: "acc = (sc, dc)" by (cases acc)
  note run = Cons.prems(1) [unfolded acc map_scan_row_Cons reference_loop_Cons]
  from Cons.prems(3) have ne: "article_id x \<noteq> article_id r"
    and rest: "article_id x \<notin> article_id ` set rs"
    by auto
  show ?case
  proof (cases "clock w 0 - pub_time r > articleThreshold")
    case False
    with run have "cleanOutdated_loop (reference ts) (map scan_row rs) (sc + 1, dc)
        (after_clock w) = (out, w1)"
      by simp
    moreover from Cons.prems(2) have "x \<in> set (Articles (after_clock w))"
      by (simp add: after_simps)
    ultimately show ?thesis using rest by (rule Cons.IH)
  next
    case True
    show ?thesis
    proof (cases "documents w (''articles'', article_id r)")
      case None
      with run True have "w1 = after_store_delete (article_id r) (after_clock w)"
        by simp
      with Cons.prems(2) ne show ?thesis
        by (simp add: after_simps)
    next
      case (Some doc)
      with run True
      have "cleanOutdated_loop (reference ts) (map scan_row rs) (sc + 1, dc + 1)
          (after_index_delete (article_id r)
             (after_store_delete (article_id r) (after_clock w))) = (out, w1)"
        by simp
      moreover from Cons.prems(2) ne
      have "x \<in> set (Articles (after_index_delete (article_id r)
             (after_store_delete (article_id r) (after_clock w))))"
        by (simp add: after_simps)
      ultimately show ?thesis using rest by (rule Cons.IH)
    qed
  qed
qed

lemma reference_loop_documents_shrink:
  "cleanOutdated_loop (reference ts) (map scan_row rs) acc w = (out, w1)
   \<Longrightarrow> documents w k = None \<Longrightarrow> documents w1 k = None"
proof (induction rs arbitrary: acc w)
  case Nil
  then show ?case by (cases acc) simp
next
  case (Cons r rs)
  obtain sc dc where acc: "acc = (sc, dc)" by (cases acc)
  note run = Cons.prems(1) [unfolded acc map_scan_row_Cons reference_loop_Cons]
  show ?case
  proof (cases "clock w 0 - pub_time r > articleThreshold")
    case False
    with run have "cleanOutdated_loop (reference ts) (map scan_row rs) (sc + 1, dc)
        (after_clock w) = (out, w1)"
      by simp
    moreover from Cons.prems(2) have "documents (after_clock w) k = None"
      by (simp add: after_simps)
    ultimately show ?thesis by (rule Cons.IH)
  next
    case True
    show ?thesis
    proof (cases "documents w (''articles'', article_id r)")
      case None
      with run True have "w1 = after_store_delete (article_id r) (after_clock w)"
        by simp
      with Cons.prems(2) show ?thesis
        by (simp add: after_simps)
    next
      case (Some doc)
      with run True
      have "cleanOutdated_loop (reference ts) (map scan_row rs) (sc + 1, dc + 1)
          (after_index_delete (article_id r)
             (after_store_delete (article_id r) (after_clock w))) = (out, w1)"
        by simp
      moreover from Cons.prems(2)
      have "documents (after_index_delete (article_id r)
             (after_store_delete (article_id r) (after_clock w))) k = None"
        by (simp add: after_simps)
      ultimately show ?thesis by (rule Cons.IH)
    qed
  qed
qed

lemma reference_loop_documents_kept:
  "cleanOutdated_loop (reference ts) (map scan_row rs) acc w = (out, w1)
   \<Longrightarrow> i \<notin> article_id ` set rs
   \<Longrightarrow> documents w1 (''articles'', i) = documents w (''articles'', i)"
proof (induction rs arbitrary: acc w)
  case Nil
  then show ?case by (cases acc) simp
next
  case (Cons r rs)
  obtain sc dc where acc: "acc = (sc, dc)" by (cases acc)
  note run = Cons.prems(1) [unfolded acc map_scan_row_Cons reference_loop_Cons]
  from Cons.prems(2) have ne: "i \<noteq> article_id r" and rest: "i \<notin> article_id ` set rs"
    by auto
  show ?case
  proof (cases "clock w 0 - pub_time r > articleThreshold")
    case False
    with run have "cleanOutdated_loop (reference ts) (map scan_row rs) (sc + 1, dc)
        (after_clock w) = (out, w1)"
      by simp
    from Cons.IH [OF this rest] show ?thesis
      by (simp add: after_simps)
  next
    case True
    show ?thesis
    proof (cases "documents w (''articles'', article_id r)")
      case None
      with run True have "w1 = after_store_delete (article_id r) (after_clock w)"
        by simp
      then show ?thesis
        by (simp add: after_simps)
    next
      case (Some doc)
      with run True
      have "cleanOutdated_loop (reference ts) (map scan_row rs) (sc + 1, dc + 1)
          (after_index_delete (article_id r)
             (after_store_delete (article_id r) (after_clock w))) = (out, w1)"
        by simp
      from Cons.IH [OF this rest] ne show ?thesis
        by (simp add: after_simps)
    qed
  qed
qed

lemma reference_loop_clock:
  "cleanOutdated_loop (reference ts) (map scan_row rs) acc w = (Ret acc1, w1)
   \<Longrightarrow> clock w1 n = clock w (n + length rs)"
proof (induction rs arbitrary: acc w n)
  case Nil
  then show ?case by (cases acc) simp
next
  case (Cons r rs)
  obtain sc dc where acc: "acc = (sc, dc)" by (cases acc)
  note run = Cons.prems(1) [unfolded acc map_scan_row_Cons reference_loop_Cons]
  show ?case
  proof (cases "clock w 0 - pub_time r > articleThreshold")
    case False
    with run have "cleanOutdated_loop (reference ts) (map scan_row rs) (sc + 1, dc)
        (after_clock w) = (Ret acc1, w1)"
      by simp
    from Cons.IH [OF this, of n] show ?thesis
      by (simp add: after_simps)
  next
    case True
    show ?thesis
    proof (cases "documents w (''articles'', article_id r)")
      case None
      with run True show ?thesis by simp
    next
      case (Some doc)
      with run True
      have "cleanOutdated_loop (reference ts) (map scan_row rs) (sc + 1, dc + 1)
          (after_index_delete (article_id r)
             (after_store_delete (article_id r) (after_clock w))) = (Ret acc1, w1)"
        by simp
      from Cons.IH [OF this, of n] show ?thesis
        by (simp add: after_simps)
    qed
  qed
qed

lemma reach_row:
  assumes "db_Query env v0 = (Inr (pre @ row # rest), w0)"
    and "cleanOutdated_loop env pre (0, 0) w0 = (Ret acc, w)"
  shows "cleanOutdated env v0 = cleanOutdated_loop env (row # rest) acc w"
  using assms by (simp add: cleanOutdated_def cleanOutdated_loop_append)

lemma reference_row_decided:
  assumes i: "i < length (Articles u)"
    and keys: "distinct (map article_id (Articles u))"
    and reach: "cleanOutdated_loop (reference ts) (map scan_row (take i (Articles u))) (0, 0) u
                  = (Ret c, u1)"
    and final: "cleanOutdated (reference ts) u = (out, u2)"
  shows "(clock u i - pub_time (Articles u ! i) \<le> articleThreshold \<longrightarrow>
            Articles u ! i \<in> set (Articles u2) \<and>
            documents u2 (''articles'', article_id (Articles u ! i)) =
              documents u (''articles'', article_id (Articles u ! i))) \<and>
         (clock u i - pub_time (Articles u ! i) > articleThreshold \<longrightarrow>
            article_id (Articles u ! i) \<notin> article_id ` set (Articles u2) \<and>
            documents u2 (''articles'', article_id (Articles u ! i)) = None)"
proof -
  let ?rows = "Articles u"
  let ?r = "?rows ! i"
  let ?pre = "take i ?rows"
  let ?post = "drop (Suc i) ?rows"
  let ?key = "(''articles'', article_id ?r)"
  obtain sc dc where c: "c = (sc, dc)" by (cases c)
  from i have split: "?rows = ?pre @ ?r # ?post"
    by (simp add: id_take_nth_drop)
  from i have len: "length ?pre = i" by simp
  from keys have "distinct (map article_id (?pre @ ?r # ?post))"
    using split by simp
  then have not_pre: "article_id ?r \<notin> article_id ` set ?pre"
    and not_post: "article_id ?r \<notin> article_id ` set ?post"
    by auto
  have q: "db_Query (reference ts) u =
      (Inr (map scan_row ?pre @ scan_row ?r # map scan_row ?post), u)"
    using split by (simp add: reference_sel store_Query_def flip: map_append list.map(2))
  from reach_row [OF q reach] final c
  have run: "cleanOutdated_loop (reference ts) (scan_row ?r # map scan_row ?post) (sc, dc) u1
      = (out, u2)"
    by simp
  note step = run [unfolded reference_loop_Cons]
  from reference_loop_clock [OF reach, of 0] len have now: "clock u1 0 = clock u i"
    by simp
  from i have mem: "?r \<in> set ?rows" by simp
  from reach mem not_pre have in1: "?r \<in> set (Articles u1)"
    by (rule reference_loop_rows_kept)
  from reach not_pre have doc1: "documents u1 ?key = documents u ?key"
    by (rule reference_loop_documents_kept)
  show ?thesis
  proof (intro conjI impI)
    assume young: "clock u i - pub_time ?r \<le> articleThreshold"
    with step now
    have rest: "cleanOutdated_loop (reference ts) (map scan_row ?post) (sc + 1, dc)
        (after_clock u1) = (out, u2)"
      by simp
    from in1 have in2: "?r \<in> set (Articles (after_clock u1))"
      by (simp add: after_simps)
    from rest in2 not_post show "?r \<in> set (Articles u2)"
      by (rule reference_loop_rows_kept)
    from reference_loop_documents_kept [OF rest not_post] doc1
    show "documents u2 ?key = documents u ?key"
      by (simp add: after_simps)
  next
    assume old: "clock u i - pub_time ?r > articleThreshold"
    show "article_id ?r \<notin> article_id ` set (Articles u2)"
    proof (cases "documents u1 ?key")
      case None
      with step now old have "u2 = after_store_delete (article_id ?r) (after_clock u1)"
        by simp
      then show ?thesis by (auto simp add: after_simps)
    next
      case (Some doc)
      let ?w3 = "after_index_delete (article_id ?r)
             (after_store_delete (article_id ?r) (after_clock u1))"
      from Some step now old
      have rest: "cleanOutdated_loop (reference ts) (map scan_row ?post) (sc + 1, dc + 1) ?w3
          = (out, u2)"
        by simp
      have gone: "article_id x \<noteq> article_id ?r" if "x \<in> set (Articles u2)" for x
      proof -
        from rest that have "x \<in> set (Articles ?w3)"
          by (rule reference_loop_rows_shrink)
        then show ?thesis by (simp add: after_simps)
      qed
      show ?thesis
      proof
        assume "article_id ?r \<in> article_id ` set (Articles u2)"
        then obtain x where x: "x \<in> set (Articles u2)"
          and e: "article_id ?r = article_id x"
          by (rule imageE)
        from gone [OF x] e show False by simp
      qed
    qed
  next
    assume old: "clock u i - pub_time ?r > articleThreshold"
    show "documents u2 ?key = None"
    proof (cases "documents u1 ?key")
      case None
      with step now old have "u2 = after_store_delete (article_id ?r) (after_clock u1)"
        by simp
      with None show ?thesis by (simp add: after_simps)
    next
      case (Some doc)
      let ?w3 = "after_index_delete (article_id ?r)
             (after_store_delete (article_id ?r) (after_clock u1))"
      from Some step now old
      have rest: "cleanOutdated_loop (reference ts) (map scan_row ?post) (sc + 1, dc + 1) ?w3
          = (out, u2)"
        by simp
      moreover have "documents ?w3 ?key = None"
        by (simp add: after_simps)
      ultimately show ?thesis by (rule reference_loop_documents_shrink)
    qed
  qed
qed

lemma row_decided:
  assumes q: "db_Query env v0 = (Inr (pre @ Inr (ident, pubDate) # rest), w0)"
    and reach: "cleanOutdated_loop env pre (0, 0) w0 = (Ret (sc, dc), w)"
    and now: "time_Now env w = (now, w1)"
  shows "(now - Time pubDate \<le> articleThreshold \<longrightarrow>
            cleanOutdated env v0 = cleanOutdated_loop env rest (sc + 1, dc) w1) \<and>
         (now - Time pubDate > articleThreshold \<longrightarrow>
            cleanOutdated env v0 =
              (case db_Exec env (DeleteArticle ident) w1 of
                 (Some err, w2) \<Rightarrow> (Exit, w2)
               | (None, w2) \<Rightarrow>
                   (case es_Delete env ''articles'' ident w2 of
                      ((res, Some err), w3) \<Rightarrow> (Exit, w3)
                    | ((None, None), w3) \<Rightarrow> (Panic, w3)
                    | ((Some res, None), w3) \<Rightarrow>
                        if IsError res then (Exit, w3)
                        else cleanOutdated_loop env rest (sc + 1, dc + 1) w3)))"
  using now by (simp add: reach_row [OF q reach] Sub_gt_threshold)

text \<open>
  Claim C3: the reaper deletes exactly the articles whose age strictly exceeds the
  retention window. For every environment, when the sweep reaches a row at the instant
  \<open>now\<close>: if \<open>now - pubDate\<close> is at most the window (the window itself, and the window
  less any \<open>\<epsilon> > 0\<close>), the sweep goes on to the next row with no request for this row
  and no deletion counted; if it exceeds the window (the window plus any \<open>\<epsilon> > 0\<close>),
  the row is deleted from the store, then the document from the index, and the sweep
  goes on with the deletion counted once both are acknowledged. The saturation of
  \<^verbatim>\<open>Sub\<close> does not move the boundary. In the reference world, with the ids as primary
  key, for a row that the sweep reaches and whatever becomes of the sweep on the later
  rows: at an age of at most the window the row is still stored at the end and its
  document is as it was; at an age above the window neither a row nor a document of its
  id is left.
\<close>

theorem reaper_retention_boundary:
  "(db_Query env v0 = (Inr (pre @ Inr (ident, pubDate) # rest), w0) \<and>
    cleanOutdated_loop env pre (0, 0) w0 = (Ret (sc, dc), w) \<and>
    time_Now env w = (now, w1) \<longrightarrow>
      (now - Time pubDate \<le> articleThreshold \<longrightarrow>
         cleanOutdated env v0 = cleanOutdated_loop env rest (sc + 1, dc) w1) \<and>
      (now - Time pubDate > articleThreshold \<longrightarrow>
         cleanOutdated env v0 =
           (case db_Exec env (DeleteArticle ident) w1 of
              (Some err, w2) \<Rightarrow> (Exit, w2)
            | (None, w2) \<Rightarrow>
                (case es_Delete env ''articles'' ident w2 of
                   ((res, Some err), w3) \<Rightarrow> (Exit, w3)
                 | ((None, None), w3) \<Rightarrow> (Panic, w3)
                 | ((Some res, None), w3) \<Rightarrow>
                     if IsError res then (Exit, w3)
                     else cleanOutdated_loop env rest (sc + 1, dc + 1) w3)))) \<and>
   (i < length (Articles u) \<and>
    distinct (map article_id (Articles u)) \<and>
    cleanOutdated_loop (reference ts) (map scan_row (take i (Articles u))) (0, 0) u
      = (Ret c, u1) \<and>
    cleanOutdated (reference ts) u = (out, u2) \<longrightarrow>
      (clock u i - pub_time (Articles u ! i) \<le> articleThreshold \<longrightarrow>
         Articles u ! i \<in> set (Articles u2) \<and>
         documents u2 (''articles'', article_id (Articles u ! i)) =
           documents u (''articles'', article_id (Articles u ! i))) \<and>
      (clock u i - pub_time (Articles u ! i) > articleThreshold \<longrightarrow>
         article_id (Articles u ! i) \<notin> article_id ` set (Articles u2) \<and>
         documents u2 (''articles'', article_id (Articles u ! i)) = None))"
proof (rule conjI)
  show "db_Query env v0 = (Inr (pre @ Inr (ident, pubDate) # rest), w0) \<and>
    cleanOutdated_loop env pre (0, 0) w0 = (Ret (sc, dc), w) \<and>
    time_Now env w = (now, w1) \<longrightarrow>
      (now - Time pubDate \<le> articleThreshold \<longrightarrow>
         cleanOutdated env v0 = cleanOutdated_loop env rest (sc + 1, dc) w1) \<and>
      (now - Time pubDate > articleThreshold \<longrightarrow>
         cleanOutdated env v0 =
           (case db_Exec env (DeleteArticle ident) w1 of
              (Some err, w2) \<Rightarrow> (Exit, w2)
            | (None, w2) \<Rightarrow>
                (case es_Delete env ''articles'' ident w2 of
                   ((res, Some err), w3) \<Rightarrow> (Exit, w3)
                 | ((None, None), w3) \<Rightarrow> (Panic, w3)
                 | ((Some res, None), w3) \<Rightarrow>
                     if IsError res then (Exit, w3)
                     else cleanOutdated_loop env rest (sc + 1, dc + 1) w3)))"
  proof (rule impI, elim conjE)
    assume "db_Query env v0 = (Inr (pre @ Inr (ident, pubDate) # rest), w0)"
      and "cleanOutdated_loop env pre (0, 0) w0 = (Ret (sc, dc), w)"
      and "time_Now env w = (now, w1)"
    then show "(now - Time pubDate \<le> articleThreshold \<longrightarrow>
         cleanOutdated env v0 = cleanOutdated_loop env rest (sc + 1, dc) w1) \<and>
      (now - Time pubDate > articleThreshold \<longrightarrow>
         cleanOutdated env v0 =
           (case db_Exec env (DeleteArticle ident) w1 of
              (Some err, w2) \<Rightarrow> (Exit, w2)
            | (None, w2) \<Rightarrow>
                (case es_Delete env ''articles'' ident w2 of
                   ((res, Some err), w3) \<Rightarrow> (Exit, w3)
                 | ((None, None), w3) \<Rightarrow> (Panic, w3)
                 | ((Some res, None), w3) \<Rightarrow>
                     if IsError res then (Exit, w3)
                     else cleanOutdated_loop env rest (sc + 1, dc + 1) w3)))"
      by (rule row_decided)
  qed
next
  show "i < length (Articles u) \<and>
    distinct (map article_id (Articles u)) \<and>
    cleanOutdated_loop (reference ts) (map scan_row (take i (Articles u))) (0, 0) u
      = (Ret c, u1) \<and>
    cleanOutdated (reference ts) u = (out, u2) \<longrightarrow>
      (clock u i - pub_time (Articles u ! i) \<le> articleThreshold \<longrightarrow>
         Articles u ! i \<in> set (Articles u2) \<and>
         documents u2 (''articles'', article_id (Articles u ! i)) =
           documents u (''articles'', article_id (Articles u ! i))) \<and>
      (clock u i - pub_time (Articles u ! i) > articleThreshold \<longrightarrow>
         article_id (Articles u ! i) \<notin> article_id ` set (Articles u2) \<and>
         documents u2 (''articles'', article_id (Articles u ! i)) = None)"
  proof (rule impI, elim conjE)
    assume "i < length (Articles u)"
      and "distinct (map article_id (Articles u))"
      and "cleanOutdated_loop (reference ts) (map scan_row (take i (Articles u))) (0, 0) u
        = (Ret c, u1)"
      and "cleanOutdated (reference ts) u = (out, u2)"
    then show "(clock u i - pub_time (Articles u ! i) \<le> articleThreshold \<longrightarrow>
         Articles u ! i \<in> set (Articles u2) \<and>
         documents u2 (''articles'', article_id (Articles u ! i)) =
           documents u (''articles'', article_id (Articles u ! i))) \<and>
      (clock u i - pub_time (Articles u ! i) > articleThreshold \<longrightarrow>
         article_id (Articles u ! i) \<notin> article_id ` set (Articles u2) \<and>
         documents u2 (''articles'', article_id (Articles u ! i)) = None)"
      by (rule reference_row_decided)
  qed
qed

lemmas world_sweep_simps = world_sweep_def fresh_article_def due_article_def stale_article_def
  expired_article_def

lemma sweep_world_sweep:
  "cleanOutdated (reference any_timestamp) world_sweep =
     (Exit, world_sweep\<lparr>Articles := [fresh_article, due_article],
        documents := [(''articles'', ''bmV3'') \<mapsto> doc0, (''articles'', ''ZHVl'') \<mapsto> doc0]\<rparr>)"
  by (simp add: cleanOutdated_def reference_simps world_sweep_simps Sub_def maxDuration_def
      minDuration_def articleThreshold_value fun_upd_twist)

theorem reaper_retention_boundary_witness:
  "db_Query (reference any_timestamp) world_sweep =
     (Inr ([scan_row fresh_article] @ Inr (''ZHVl'', \<lparr>Time = 1, Valid = True\<rparr>) #
             [scan_row stale_article, scan_row expired_article]), world_sweep) \<and>
   cleanOutdated_loop (reference any_timestamp) [scan_row fresh_article] (0, 0) world_sweep =
     (Ret (1, 0), world_sweep) \<and>
   time_Now (reference any_timestamp) world_sweep = (259200000000001, world_sweep) \<and>
   259200000000001 - Time \<lparr>Time = 1, Valid = True\<rparr> = articleThreshold \<and>
   cleanOutdated (reference any_timestamp) world_sweep =
     cleanOutdated_loop (reference any_timestamp)
       [scan_row stale_article, scan_row expired_article] (2, 0) world_sweep \<and>
   db_Query (reference any_timestamp) world_sweep =
     (Inr ([scan_row fresh_article, scan_row due_article] @
             Inr (''b2xk'', \<lparr>Time = 0, Valid = True\<rparr>) # [scan_row expired_article]),
      world_sweep) \<and>
   cleanOutdated_loop (reference any_timestamp) [scan_row fresh_article, scan_row due_article]
       (0, 0) world_sweep = (Ret (2, 0), world_sweep) \<and>
   259200000000001 - Time \<lparr>Time = 0, Valid = True\<rparr> = articleThreshold + 1 \<and>
   cleanOutdated (reference any_timestamp) world_sweep =
     cleanOutdated_loop (reference any_timestamp) [scan_row expired_article] (3, 1)
       (world_sweep\<lparr>Articles := [fresh_article, due_article, expired_article],
          documents := [(''articles'', ''bmV3'') \<mapsto> doc0, (''articles'', ''ZHVl'') \<mapsto> doc0]\<rparr>) \<and>
   distinct (map article_id (Articles world_sweep)) \<and>
   cleanOutdated (reference any_timestamp) world_sweep =
     (Exit, world_sweep\<lparr>Articles := [fresh_article, due_article],
        documents := [(''articles'', ''bmV3'') \<mapsto> doc0, (''articles'', ''ZHVl'') \<mapsto> doc0]\<rparr>) \<and>
   clock world_sweep 1 - pub_time (Articles world_sweep ! 1) = articleThreshold \<and>
   due_article \<in> set (Articles (snd (cleanOutdated (reference any_timestamp) world_sweep))) \<and>
   documents (snd (cleanOutdated (reference any_timestamp) world_sweep)) (''articles'', ''ZHVl'')
     = Some doc0 \<and>
   clock world_sweep 2 - pub_time (Articles world_sweep ! 2) = articleThreshold + 1 \<and>
   ''b2xk'' \<notin> article_id ` set (Articles (snd (cleanOutdated (reference any_timestamp)
      world_sweep))) \<and>
   documents (snd (cleanOutdated (reference any_timestamp) world_sweep)) (''articles'', ''b2xk'')
     = None"
proof -
  let ?env = "reference any_timestamp"
  let ?due = "\<lparr>Time = 1, Valid = True\<rparr>"
  let ?stale = "\<lparr>Time = 0, Valid = True\<rparr>"
  let ?final = "world_sweep\<lparr>Articles := [fresh_article, due_article],
        documents := [(''articles'', ''bmV3'') \<mapsto> doc0, (''articles'', ''ZHVl'') \<mapsto> doc0]\<rparr>"
  let ?mid = "world_sweep\<lparr>Articles := [fresh_article, due_article, expired_article],
        documents := [(''articles'', ''bmV3'') \<mapsto> doc0, (''articles'', ''ZHVl'') \<mapsto> doc0]\<rparr>"
  have q1: "db_Query ?env world_sweep =
      (Inr ([scan_row fresh_article] @ Inr (''ZHVl'', ?due) #
              [scan_row stale_article, scan_row expired_article]), world_sweep)"
    by (simp add: reference_simps world_sweep_simps)
  have q2: "db_Query ?env world_sweep =
      (Inr ([scan_row fresh_article, scan_row due_article] @ Inr (''b2xk'', ?stale) #
              [scan_row expired_article]), world_sweep)"
    by (simp add: reference_simps world_sweep_simps)
  have r1: "cleanOutdated_loop ?env [scan_row fresh_article] (0, 0) world_sweep =
      (Ret (1, 0), world_sweep)"
    by (simp add: reference_simps world_sweep_simps Sub_def maxDuration_def minDuration_def
        articleThreshold_value)
  have r2: "cleanOutdated_loop ?env [scan_row fresh_article, scan_row due_article] (0, 0)
      world_sweep = (Ret (2, 0), world_sweep)"
    by (simp add: reference_simps world_sweep_simps Sub_def maxDuration_def minDuration_def
        articleThreshold_value)
  have n: "time_Now ?env world_sweep = (259200000000001, world_sweep)"
    by (simp add: reference_simps world_sweep_def)
  have a1: "259200000000001 - Time ?due = articleThreshold"
    by (simp add: articleThreshold_value)
  have a2: "259200000000001 - Time ?stale = articleThreshold + 1"
    by (simp add: articleThreshold_value)
  have keys: "distinct (map article_id (Articles world_sweep))"
    by (simp add: world_sweep_simps)
  have run: "cleanOutdated ?env world_sweep = (Exit, ?final)"
    by (rule sweep_world_sweep)
  have b1: "clock world_sweep 1 - pub_time (Articles world_sweep ! 1) = articleThreshold"
    by (simp add: world_sweep_simps pub_time_def articleThreshold_value)
  have b2: "clock world_sweep 2 - pub_time (Articles world_sweep ! 2) = articleThreshold + 1"
    by (simp add: world_sweep_simps pub_time_def articleThreshold_value)
  have t1: "map scan_row (take 1 (Articles world_sweep)) = [scan_row fresh_article]"
    by (simp add: world_sweep_def)
  have t2: "map scan_row (take 2 (Articles world_sweep)) =
      [scan_row fresh_article, scan_row due_article]"
    by (simp add: world_sweep_def)
  have l1: "(1::nat) < length (Articles world_sweep)" "(2::nat) < length (Articles world_sweep)"
    by (simp_all add: world_sweep_def)
  have at1: "Articles world_sweep ! 1 = due_article" "article_id due_article = ''ZHVl''"
    and at2: "article_id (Articles world_sweep ! 2) = ''b2xk''"
    and d1: "documents world_sweep (''articles'', ''ZHVl'') = Some doc0"
    by (simp_all add: world_sweep_simps)
  note inst1 = reaper_retention_boundary
    [where env = ?env and ?v0.0 = world_sweep and pre = "[scan_row fresh_article]"
      and ident = "''ZHVl''" and pubDate = ?due
      and rest = "[scan_row stale_article, scan_row expired_article]" and ?w0.0 = world_sweep
      and sc = 1 and dc = 0 and w = world_sweep and now = 259200000000001
      and ?w1.0 = world_sweep and i = 1 and u = world_sweep and ts = any_timestamp
      and c = "(1, 0)" and ?u1.0 = world_sweep and out = Exit and ?u2.0 = ?final]
  note inst2 = reaper_retention_boundary
    [where env = ?env and ?v0.0 = world_sweep
      and pre = "[scan_row fresh_article, scan_row due_article]"
      and ident = "''b2xk''" and pubDate = ?stale
      and rest = "[scan_row expired_article]" and ?w0.0 = world_sweep
      and sc = 2 and dc = 0 and w = world_sweep and now = 259200000000001
      and ?w1.0 = world_sweep and i = 2 and u = world_sweep and ts = any_timestamp
      and c = "(2, 0)" and ?u1.0 = world_sweep and out = Exit and ?u2.0 = ?final]
  have a1le: "259200000000001 - Time ?due \<le> articleThreshold"
    and a2gt: "259200000000001 - Time ?stale > articleThreshold"
    by (simp_all add: articleThreshold_value)
  have b1le: "clock world_sweep 1 - pub_time (Articles world_sweep ! 1) \<le> articleThreshold"
    and b2gt: "clock world_sweep 2 - pub_time (Articles world_sweep ! 2) > articleThreshold"
    by (simp_all add: world_sweep_simps pub_time_def articleThreshold_value)
  from r1 have r1': "cleanOutdated_loop ?env (map scan_row (take 1 (Articles world_sweep)))
      (0, 0) world_sweep = (Ret (1, 0), world_sweep)"
    by (simp only: t1)
  from r2 have r2': "cleanOutdated_loop ?env (map scan_row (take 2 (Articles world_sweep)))
      (0, 0) world_sweep = (Ret (2, 0), world_sweep)"
    by (simp only: t2)
  note g1 = inst1 [THEN conjunct1, THEN mp, OF conjI [OF q1 conjI [OF r1 n]],
      THEN conjunct1, THEN mp, OF a1le]
  note g2 = inst2 [THEN conjunct1, THEN mp, OF conjI [OF q2 conjI [OF r2 n]],
      THEN conjunct2, THEN mp, OF a2gt]
  note s1 = inst1 [THEN conjunct2, THEN mp, OF conjI [OF l1(1) conjI [OF keys conjI [OF r1' run]]],
      THEN conjunct1, THEN mp, OF b1le]
  note s2 = inst2 [THEN conjunct2, THEN mp, OF conjI [OF l1(2) conjI [OF keys conjI [OF r2' run]]],
      THEN conjunct2, THEN mp, OF b2gt]
  from g1 have kept: "cleanOutdated ?env world_sweep =
      cleanOutdated_loop ?env [scan_row stale_article, scan_row expired_article] (2, 0)
        world_sweep"
    by (simp only: one_add_one)
  have step: "(case db_Exec ?env (DeleteArticle ''b2xk'') world_sweep of
         (Some err, w2) \<Rightarrow> (Exit, w2)
       | (None, w2) \<Rightarrow>
           (case es_Delete ?env ''articles'' ''b2xk'' w2 of
              ((res, Some err), w3) \<Rightarrow> (Exit, w3)
            | ((None, None), w3) \<Rightarrow> (Panic, w3)
            | ((Some res, None), w3) \<Rightarrow>
                if IsError res then (Exit, w3)
                else cleanOutdated_loop ?env [scan_row expired_article] (2 + 1, 0 + 1) w3)) =
      cleanOutdated_loop ?env [scan_row expired_article] (3, 1) ?mid"
    by (simp add: reference_simps world_sweep_simps fun_upd_twist
        del: cleanOutdated_loop.simps)
  from g2 step have deleted: "cleanOutdated ?env world_sweep =
      cleanOutdated_loop ?env [scan_row expired_article] (3, 1) ?mid"
    by (rule trans)
  from s1 at1 d1 run have f1:
    "due_article \<in> set (Articles (snd (cleanOutdated ?env world_sweep)))"
    "documents (snd (cleanOutdated ?env world_sweep)) (''articles'', ''ZHVl'') = Some doc0"
    by simp_all
  from s2 at2 run have f2:
    "''b2xk'' \<notin> article_id ` set (Articles (snd (cleanOutdated ?env world_sweep)))"
    "documents (snd (cleanOutdated ?env world_sweep)) (''articles'', ''b2xk'') = None"
    by simp_all
  from q1 r1 n a1 kept q2 r2 a2 deleted keys run b1 f1 b2 f2 show ?thesis
    by (intro conjI)
qed

section \<open>The identity derivation\<close>

lemma encodeURL_distinct: "distinct encodeURL"
  by (simp add: encodeURL_def)

lemma encodeURL_length: "length encodeURL = 64"
  by (simp add: encodeURL_def)

lemma pad_not_in_encodeURL: "CHR ''='' \<notin> set encodeURL"
  by (simp add: encodeURL_def)

lemma sextet_eq_iff:
  "sextet v s = sextet v' s \<longleftrightarrow> v div 2 ^ s mod 64 = v' div 2 ^ s mod 64"
  by (simp add: sextet_def nth_eq_iff_index_eq encodeURL_distinct encodeURL_length)

lemma sextet_not_pad: "sextet v s \<noteq> CHR ''=''"
proof
  assume "sextet v s = CHR ''=''"
  then have "CHR ''='' = encodeURL ! (v div 2 ^ s mod 64)"
    by (simp add: sextet_def)
  also have "\<dots> \<in> set encodeURL"
    by (rule nth_mem) (simp add: encodeURL_length)
  finally show False
    using pad_not_in_encodeURL by blast
qed



lemma div_mod_64_eq:
  fixes x y :: nat
  assumes "x div 64 = y div 64" and "x mod 64 = y mod 64"
  shows "x = y"
  using assms by (metis div_mult_mod_eq)

lemma sextets_determine:
  fixes n m :: nat
  assumes n: "n < 2 ^ 24" and m: "m < 2 ^ 24"
    and e18: "n div 2 ^ 18 mod 64 = m div 2 ^ 18 mod 64"
    and e12: "n div 2 ^ 12 mod 64 = m div 2 ^ 12 mod 64"
    and e6: "n div 2 ^ 6 mod 64 = m div 2 ^ 6 mod 64"
    and e0: "n mod 64 = m mod 64"
  shows "n = m"
proof -
  have s6: "k div 2 ^ 6 = k div 64" for k :: nat by simp
  have s12: "k div 2 ^ 12 = k div 64 div 64" for k :: nat by (simp add: div_mult2_eq)
  have s18: "k div 2 ^ 18 = k div 64 div 64 div 64" for k :: nat by (simp add: div_mult2_eq)
  from n have "n div 2 ^ 18 < 64" by (simp add: less_mult_imp_div_less)
  moreover from m have "m div 2 ^ 18 < 64" by (simp add: less_mult_imp_div_less)
  ultimately have a: "n div 64 div 64 div 64 = m div 64 div 64 div 64"
    using e18 by (simp only: s18 mod_less)
  from e12 have "(n div 64 div 64) mod 64 = (m div 64 div 64) mod 64"
    by (simp only: s12)
  with a have b: "n div 64 div 64 = m div 64 div 64"
    by (rule div_mod_64_eq)
  from e6 have "(n div 64) mod 64 = (m div 64) mod 64"
    by (simp only: s6)
  with b have c: "n div 64 = m div 64"
    by (rule div_mod_64_eq)
  from c e0 show ?thesis
    by (rule div_mod_64_eq)
qed



lemma bytes3_determined:
  fixes a b c a' b' c' :: nat
  assumes b: "b < 256" and c: "c < 256" and b': "b' < 256" and c': "c' < 256"
    and eq: "a * 65536 + b * 256 + c = a' * 65536 + b' * 256 + c'"
  shows "a = a' \<and> b = b' \<and> c = c'"
proof -
  from b c have r: "b * 256 + c < 65536" by simp
  from b' c' have r': "b' * 256 + c' < 65536" by simp
  from eq have eq2: "a * 65536 + (b * 256 + c) = a' * 65536 + (b' * 256 + c')"
    by (simp add: add.assoc)
  from r have "(a * 65536 + (b * 256 + c)) div 65536 = a" by simp
  moreover from r' have "(a' * 65536 + (b' * 256 + c')) div 65536 = a'" by simp
  ultimately have a: "a = a'" using eq2 by simp
  with eq2 have eq3: "b * 256 + c = b' * 256 + c'" by simp
  from c have "(b * 256 + c) div 256 = b" by simp
  moreover from c' have "(b' * 256 + c') div 256 = b'" by simp
  ultimately have bb: "b = b'" using eq3 by simp
  with eq3 have "c = c'" by simp
  with a bb show ?thesis by simp
qed


lemma val_bound:
  fixes a b c :: nat
  assumes "a < 256" "b < 256" "c < 256"
  shows "a * 65536 + b * 256 + c < 2 ^ 24"
  using assms by simp



lemma tail2_mod: "(x * 65536 + y * 256 + 0) mod 64 = (x' * 65536 + y' * 256 + 0) mod (64::nat)"
proof -
  have "x * 65536 + y * 256 + 0 = 64 * (x * 1024 + y * 4)" for x y :: nat by simp
  then show ?thesis by (simp only: mod_mult_self1_is_0)
qed

lemma tail1_mod: "(x * 65536 + 0 * 256 + 0) mod 64 = (x' * 65536 + 0 * 256 + 0) mod (64::nat)"
proof -
  have "x * 65536 + 0 * 256 + 0 = 64 * (x * 1024)" for x :: nat by simp
  then show ?thesis by (simp only: mod_mult_self1_is_0)
qed

lemma tail1_div: "(x * 65536 + 0 * 256 + 0) div 2 ^ 6 mod 64 = (x' * 65536 + 0 * 256 + 0) div 2 ^ 6 mod (64::nat)"
proof -
  have "(x * 65536 + 0 * 256 + 0) div 2 ^ 6 = 64 * (x * 16)" for x :: nat by simp
  then show ?thesis by (simp only: mod_mult_self1_is_0)
qed


lemma byte_bound: "(of_char a :: nat) < 256"
  by simp

lemma val3_inj:
  fixes a b c a' b' c' :: nat
  assumes "a < 256" "b < 256" "c < 256" "a' < 256" "b' < 256" "c' < 256"
    and e18: "(a * 65536 + b * 256 + c) div 2 ^ 18 mod 64 =
              (a' * 65536 + b' * 256 + c') div 2 ^ 18 mod 64"
    and e12: "(a * 65536 + b * 256 + c) div 2 ^ 12 mod 64 =
              (a' * 65536 + b' * 256 + c') div 2 ^ 12 mod 64"
    and e6: "(a * 65536 + b * 256 + c) div 2 ^ 6 mod 64 =
             (a' * 65536 + b' * 256 + c') div 2 ^ 6 mod 64"
    and e0: "(a * 65536 + b * 256 + c) mod 64 = (a' * 65536 + b' * 256 + c') mod 64"
  shows "a = a' \<and> b = b' \<and> c = c'"
proof -
  have bn: "a * 65536 + b * 256 + c < 2 ^ 24" by (rule val_bound) fact+
  have bm: "a' * 65536 + b' * 256 + c' < 2 ^ 24" by (rule val_bound) fact+
  have "a * 65536 + b * 256 + c = a' * 65536 + b' * 256 + c'"
    by (rule sextets_determine [OF bn bm e18 e12 e6 e0])
  with assms(2,3,5,6) show ?thesis
    by (intro bytes3_determined)
qed

lemma val2_inj:
  fixes a b a' b' :: nat
  assumes a: "a < 256" and b: "b < 256" and a': "a' < 256" and b': "b' < 256"
    and e18: "(a * 65536 + b * 256) div 2 ^ 18 mod 64 = (a' * 65536 + b' * 256) div 2 ^ 18 mod 64"
    and e12: "(a * 65536 + b * 256) div 2 ^ 12 mod 64 = (a' * 65536 + b' * 256) div 2 ^ 12 mod 64"
    and e6: "(a * 65536 + b * 256) div 2 ^ 6 mod 64 = (a' * 65536 + b' * 256) div 2 ^ 6 mod 64"
  shows "a = a' \<and> b = b'"
proof -
  have z: "(0::nat) < 256" by simp
  have p: "x * 65536 + y * 256 = x * 65536 + y * 256 + 0" for x y :: nat
    by (simp only: add_0_right)
  from e18 have f18: "(a * 65536 + b * 256 + 0) div 2 ^ 18 mod 64 =
      (a' * 65536 + b' * 256 + 0) div 2 ^ 18 mod 64"
    by (simp only: add_0_right)
  from e12 have f12: "(a * 65536 + b * 256 + 0) div 2 ^ 12 mod 64 =
      (a' * 65536 + b' * 256 + 0) div 2 ^ 12 mod 64"
    by (simp only: add_0_right)
  from e6 have f6: "(a * 65536 + b * 256 + 0) div 2 ^ 6 mod 64 =
      (a' * 65536 + b' * 256 + 0) div 2 ^ 6 mod 64"
    by (simp only: add_0_right)
  from val3_inj [OF a b z a' b' z f18 f12 f6 tail2_mod] show ?thesis
    by (simp only:)
qed

lemma val1_inj:
  fixes a a' :: nat
  assumes a: "a < 256" and a': "a' < 256"
    and e18: "(a * 65536) div 2 ^ 18 mod 64 = (a' * 65536) div 2 ^ 18 mod 64"
    and e12: "(a * 65536) div 2 ^ 12 mod 64 = (a' * 65536) div 2 ^ 12 mod 64"
  shows "a = a'"
proof -
  have z: "(0::nat) < 256" by simp
  have p: "x * 65536 + 0 * 256 + 0 = x * 65536" for x :: nat
    by (simp only: mult_zero_left add_0_right)
  from e18 have f18: "(a * 65536 + 0 * 256 + 0) div 2 ^ 18 mod 64 =
      (a' * 65536 + 0 * 256 + 0) div 2 ^ 18 mod 64"
    by (simp only: p)
  from e12 have f12: "(a * 65536 + 0 * 256 + 0) div 2 ^ 12 mod 64 =
      (a' * 65536 + 0 * 256 + 0) div 2 ^ 12 mod 64"
    by (simp only: p)
  from val3_inj [OF a z z a' z z f18 f12 tail1_div tail1_mod] show ?thesis
    by (simp only:)
qed

lemma group3_inj:
  assumes "sextet (of_char a * 65536 + of_char b * 256 + of_char c) 18 =
           sextet (of_char a' * 65536 + of_char b' * 256 + of_char c') 18"
    and "sextet (of_char a * 65536 + of_char b * 256 + of_char c) 12 =
         sextet (of_char a' * 65536 + of_char b' * 256 + of_char c') 12"
    and "sextet (of_char a * 65536 + of_char b * 256 + of_char c) 6 =
         sextet (of_char a' * 65536 + of_char b' * 256 + of_char c') 6"
    and "sextet (of_char a * 65536 + of_char b * 256 + of_char c) 0 =
         sextet (of_char a' * 65536 + of_char b' * 256 + of_char c') 0"
  shows "a = a' \<and> b = b' \<and> c = c'"
proof -
  from assms(4) have e0: "(of_char a * 65536 + of_char b * 256 + of_char c) mod 64 =
      (of_char a' * 65536 + of_char b' * 256 + of_char c' :: nat) mod 64"
    by (simp only: sextet_eq_iff power_0 div_by_1)
  have "(of_char a :: nat) = of_char a' \<and> (of_char b :: nat) = of_char b' \<and>
        (of_char c :: nat) = of_char c'"
    by (rule val3_inj [OF byte_bound byte_bound byte_bound byte_bound byte_bound byte_bound
          assms(1) [unfolded sextet_eq_iff] assms(2) [unfolded sextet_eq_iff]
          assms(3) [unfolded sextet_eq_iff] e0])
  then show ?thesis by (simp only: of_char_eq_iff)
qed

lemma group2_inj:
  assumes "sextet (of_char a * 65536 + of_char b * 256) 18 =
           sextet (of_char a' * 65536 + of_char b' * 256) 18"
    and "sextet (of_char a * 65536 + of_char b * 256) 12 =
         sextet (of_char a' * 65536 + of_char b' * 256) 12"
    and "sextet (of_char a * 65536 + of_char b * 256) 6 =
         sextet (of_char a' * 65536 + of_char b' * 256) 6"
  shows "a = a' \<and> b = b'"
proof -
  have "(of_char a :: nat) = of_char a' \<and> (of_char b :: nat) = of_char b'"
    by (rule val2_inj [OF byte_bound byte_bound byte_bound byte_bound
          assms(1) [unfolded sextet_eq_iff] assms(2) [unfolded sextet_eq_iff]
          assms(3) [unfolded sextet_eq_iff]])
  then show ?thesis by (simp only: of_char_eq_iff)
qed

lemma group1_inj:
  assumes "sextet (of_char a * 65536) 18 = sextet (of_char a' * 65536) 18"
    and "sextet (of_char a * 65536) 12 = sextet (of_char a' * 65536) 12"
  shows "a = a'"
proof -
  have "(of_char a :: nat) = of_char a'"
    by (rule val1_inj [OF byte_bound byte_bound
          assms(1) [unfolded sextet_eq_iff] assms(2) [unfolded sextet_eq_iff]])
  then show ?thesis by (simp only: of_char_eq_iff)
qed

lemma EncodeToString_inj: "EncodeToString xs = EncodeToString ys \<Longrightarrow> xs = ys"
proof (induction xs arbitrary: ys rule: EncodeToString.induct)
  case 1
  then show ?case
    by (cases ys rule: EncodeToString.cases) (simp_all add: Let_def)
next
  case (2 a)
  note eq = "2.prems"
  show ?case
  proof (cases ys rule: EncodeToString.cases)
    case 1
    with eq show ?thesis by (simp add: Let_def)
  next
    case (2 a')
    from eq have "sextet (of_char a * 65536) 18 = sextet (of_char a' * 65536) 18"
      and "sextet (of_char a * 65536) 12 = sextet (of_char a' * 65536) 12"
      unfolding 2 by (simp_all add: Let_def)
    then have "a = a'"
      by (rule group1_inj)
    then show ?thesis unfolding 2 by simp
  next
    case (3 a' b')
    from eq have False
      unfolding 3 by (simp add: Let_def sextet_not_pad sextet_not_pad [symmetric])
    then show ?thesis ..
  next
    case (4 a' b' c' src')
    from eq have False
      unfolding 4 by (simp add: Let_def sextet_not_pad sextet_not_pad [symmetric])
    then show ?thesis ..
  qed
next
  case (3 a b)
  note eq = "3.prems"
  show ?case
  proof (cases ys rule: EncodeToString.cases)
    case 1
    with eq show ?thesis by (simp add: Let_def)
  next
    case (2 a')
    from eq have False
      unfolding 2 by (simp add: Let_def sextet_not_pad sextet_not_pad [symmetric])
    then show ?thesis ..
  next
    case (3 a' b')
    from eq have "sextet (of_char a * 65536 + of_char b * 256) 18 =
        sextet (of_char a' * 65536 + of_char b' * 256) 18"
      and "sextet (of_char a * 65536 + of_char b * 256) 12 =
        sextet (of_char a' * 65536 + of_char b' * 256) 12"
      and "sextet (of_char a * 65536 + of_char b * 256) 6 =
        sextet (of_char a' * 65536 + of_char b' * 256) 6"
      unfolding 3 by (simp_all add: Let_def)
    then have "a = a' \<and> b = b'"
      by (rule group2_inj)
    then show ?thesis unfolding 3 by simp
  next
    case (4 a' b' c' src')
    from eq have False
      unfolding 4 by (simp add: Let_def sextet_not_pad sextet_not_pad [symmetric])
    then show ?thesis ..
  qed
next
  case (4 a b c src)
  note eq = "4.prems" and IH = "4.IH"
  show ?case
  proof (cases ys rule: EncodeToString.cases)
    case 1
    with eq show ?thesis by (simp add: Let_def)
  next
    case (2 a')
    from eq have False
      unfolding 2 by (simp add: Let_def sextet_not_pad sextet_not_pad [symmetric])
    then show ?thesis ..
  next
    case (3 a' b')
    from eq have False
      unfolding 3 by (simp add: Let_def sextet_not_pad sextet_not_pad [symmetric])
    then show ?thesis ..
  next
    case (4 a' b' c' src')
    from eq have "sextet (of_char a * 65536 + of_char b * 256 + of_char c) 18 =
        sextet (of_char a' * 65536 + of_char b' * 256 + of_char c') 18"
      and "sextet (of_char a * 65536 + of_char b * 256 + of_char c) 12 =
        sextet (of_char a' * 65536 + of_char b' * 256 + of_char c') 12"
      and "sextet (of_char a * 65536 + of_char b * 256 + of_char c) 6 =
        sextet (of_char a' * 65536 + of_char b' * 256 + of_char c') 6"
      and "sextet (of_char a * 65536 + of_char b * 256 + of_char c) 0 =
        sextet (of_char a' * 65536 + of_char b' * 256 + of_char c') 0"
      unfolding 4 by (simp_all add: Let_def)
    then have g: "a = a' \<and> b = b' \<and> c = c'"
      by (rule group3_inj)
    from eq have rest: "EncodeToString src = EncodeToString src'"
      unfolding 4 by (simp add: Let_def)
    from IH [OF refl rest] g show ?thesis unfolding 4 by simp
  qed
qed

lemma sextet_in_encodeURL: "sextet v s \<in> set encodeURL"
  unfolding sextet_def by (rule nth_mem) (simp add: encodeURL_length)

lemma EncodeToString_alphabet:
  "set (EncodeToString src) \<subseteq> set encodeURL \<union> {CHR ''=''}"
  by (induction src rule: EncodeToString.induct)
    (auto simp add: Let_def sextet_in_encodeURL)

lemma EncodeToString_no_quote: "CHR 0x27 \<notin> set (EncodeToString src)"
proof -
  have "CHR 0x27 \<notin> set encodeURL \<union> {CHR ''=''}"
    by (simp add: encodeURL_def)
  with EncodeToString_alphabet [of src] show ?thesis by blast
qed

text \<open>The encoding on the test vectors of RFC 4648, and on bytes that need the URL alphabet.\<close>

lemma EncodeToString_examples:
  "EncodeToString [] = []"
  "EncodeToString ''f'' = ''Zg==''"
  "EncodeToString ''fo'' = ''Zm8=''"
  "EncodeToString ''foo'' = ''Zm9v''"
  "EncodeToString ''foobar'' = ''Zm9vYmFy''"
  "EncodeToString [CHR 0xFB, CHR 0xFF] = ''-_8=''"
  by (simp_all add: sextet_def encodeURL_def)

text \<open>
  Claim C8: the identity derivation is a total function of its input alone, and two
  inputs have the same id exactly when they are equal: the encoding is injective, so no
  two distinct URLs or links collide.
\<close>

theorem EncodeToString_eq_iff: "EncodeToString x = EncodeToString y \<longleftrightarrow> x = y"
  by (auto dest: EncodeToString_inj)

section \<open>The requests of a feed task\<close>

lemma logged_simps:
  "db_Exec (logged env) q (w, tr) =
     (case db_Exec env q w of (r, w1) \<Rightarrow> (r, (w1, tr @ [EvExec q])))"
  "db_Query (logged env) (w, tr) =
     (case db_Query env w of (r, w1) \<Rightarrow> (r, (w1, tr @ [EvQuery])))"
  "es_Update (logged env) index ident body (w, tr) =
     (case es_Update env index ident body w of
        (r, w1) \<Rightarrow> (r, (w1, tr @ [EvUpdate index ident body])))"
  "es_Create (logged env) index ident body (w, tr) =
     (case es_Create env index ident body w of
        (r, w1) \<Rightarrow> (r, (w1, tr @ [EvCreate index ident body])))"
  "es_Delete (logged env) index ident (w, tr) =
     (case es_Delete env index ident w of
        (r, w1) \<Rightarrow> (r, (w1, tr @ [EvDelete index ident])))"
  "time_Now (logged env) (w, tr) = (case time_Now env w of (t, w1) \<Rightarrow> (t, (w1, tr)))"
  "http_Get_Unmarshal (logged env) url (w, tr) =
     (case http_Get_Unmarshal env url w of (r, w1) \<Rightarrow> (r, (w1, tr @ [EvFetch url])))"
  by (simp_all add: logged_def)

lemma pushToES_logged:
  assumes "pushToES (logged env) index ident title description (w, tr) = (out, (w', tr'))"
  shows "tr' = tr @ [EvUpdate index ident (update_body title description)] \<or>
         tr' = tr @ [EvUpdate index ident (update_body title description),
                     EvCreate index ident (create_body title description)]"
  using assms
  by (auto simp add: pushToES_cases logged_simps
      split: prod.splits option.splits if_splits sum.splits)

lemma pushArticles_loop_logged:
  "pushArticles_loop (logged env) siteId items (w, tr) = (out, (w', tr'))
   \<Longrightarrow> \<exists>new. tr' = tr @ new \<and> set new \<subseteq> (\<Union>article\<in>set items. set (article_requests siteId article))"
proof (induction items arbitrary: w tr)
  case Nil
  then show ?case by simp
next
  case (Cons article items)
  show ?case
  proof (cases "Item_Title article = [] \<or> Item_Link article = [] \<or> Item_Description article = []")
    case True
    with Cons.prems show ?thesis by auto
  next
    case False
    let ?id = "EncodeToString (Item_Link article)"
    let ?t = "sanitize (Item_Title article)"
    let ?d = "sanitize (Item_Description article)"
    let ?q = "UpsertArticle ?id ?t (sanitize (Item_Link article)) ?d
                (sanitize (Item_PubDate article)) siteId"
    obtain e1 w1 where db: "db_Exec env ?q w = (e1, w1)"
      by (cases "db_Exec env ?q w")
    show ?thesis
    proof (cases e1)
      case (Some err)
      with Cons.prems False db have "tr' = tr @ [EvExec ?q]"
        by (simp add: pushArticleToDB_def logged_simps Let_def)
      then show ?thesis by (auto simp add: article_requests_def)
    next
      case None
      obtain o2 w2 tr2 where es:
        "pushToES (logged env) ''articles'' ?id ?t ?d (w1, tr @ [EvExec ?q]) = (o2, (w2, tr2))"
        by (cases "pushToES (logged env) ''articles'' ?id ?t ?d (w1, tr @ [EvExec ?q])") auto
      from pushToES_logged [OF es] obtain mid where mid: "tr2 = tr @ mid"
        and sub: "set mid \<subseteq> set (article_requests siteId article)"
        by (auto simp add: article_requests_def)
      show ?thesis
      proof (cases "o2 = Ret None")
        case True
        with Cons.prems False db None es
        have "pushArticles_loop (logged env) siteId items (w2, tr2) = (out, (w', tr'))"
          by (simp add: pushArticleToDB_def pushArticleToES_def logged_simps Let_def)
        from Cons.IH [OF this] obtain new where "tr' = tr2 @ new"
          and "set new \<subseteq> (\<Union>article\<in>set items. set (article_requests siteId article))"
          by auto
        with mid sub show ?thesis by auto
      next
        case False
        with Cons.prems \<open>\<not> (Item_Title article = [] \<or> Item_Link article = [] \<or> Item_Description article = [])\<close>
          db None es
        have "tr' = tr2"
          by (auto simp add: pushArticleToDB_def pushArticleToES_def logged_simps Let_def
              split: outcome.splits option.splits)
        with mid sub show ?thesis by auto
      qed
    qed
  qed
qed

lemma pushSite_logged:
  assumes "pushSite (logged env) feedUrl data (w, tr) = (out, (w', tr'))"
  shows "\<exists>new. tr' = tr @ new \<and> set new \<subseteq> set (site_requests feedUrl (Rss_Channel data))"
proof (cases "Channel_Title (Rss_Channel data) = [] \<or> Channel_Link (Rss_Channel data) = []")
  case True
  with assms show ?thesis by (auto simp add: pushSite_def)
next
  case False
  let ?id = "EncodeToString feedUrl"
  let ?t = "sanitize (Channel_Title (Rss_Channel data))"
  let ?d = "sanitize (Channel_Description (Rss_Channel data))"
  let ?q = "UpsertSite ?id feedUrl ?t (sanitize (Channel_Link (Rss_Channel data))) ?d"
  obtain e1 w1 where db: "db_Exec env ?q w = (e1, w1)"
    by (cases "db_Exec env ?q w")
  show ?thesis
  proof (cases e1)
    case (Some err)
    with assms False db have "tr' = tr @ [EvExec ?q]"
      by (simp add: pushSite_def pushSiteToDB_def logged_simps Let_def)
    then show ?thesis by (auto simp add: site_requests_def)
  next
    case None
    obtain o2 w2 tr2 where es:
      "pushToES (logged env) ''sites'' ?id ?t ?d (w1, tr @ [EvExec ?q]) = (o2, (w2, tr2))"
      by (cases "pushToES (logged env) ''sites'' ?id ?t ?d (w1, tr @ [EvExec ?q])") auto
    from pushToES_logged [OF es] obtain mid where mid: "tr2 = tr @ mid"
      and sub: "set mid \<subseteq> set (site_requests feedUrl (Rss_Channel data))"
      by (auto simp add: site_requests_def)
    from assms False db None es have "tr' = tr2"
      by (auto simp add: pushSite_def pushSiteToDB_def pushSiteToES_def logged_simps Let_def
          split: outcome.splits)
    with mid sub show ?thesis by auto
  qed
qed

lemma sanitize_map: "sanitize s = map (\<lambda>c. if c = CHR 0x27 then CHR 0x60 else c) s"
  by (induction s) (simp_all add: sanitize_def)

lemma sanitize_id_iff: "sanitize s = s \<longleftrightarrow> CHR 0x27 \<notin> set s"
  by (induction s) (simp_all add: sanitize_map)

lemma requests_pushSite:
  "set (requests (pushSite (logged env) feedUrl data (w, []))) \<subseteq>
     set (site_requests feedUrl (Rss_Channel data))"
proof -
  obtain out w' tr' where r: "pushSite (logged env) feedUrl data (w, []) = (out, (w', tr'))"
    by (cases "pushSite (logged env) feedUrl data (w, [])") auto
  from pushSite_logged [OF r] show ?thesis
    by (auto simp add: requests_def r)
qed

lemma requests_pushArticles:
  "set (requests (pushArticles (logged env) siteId data (w, []))) \<subseteq>
     (\<Union>article\<in>set (Channel_Items (Rss_Channel data)). set (article_requests siteId article))"
proof -
  obtain out w' tr' where r:
    "pushArticles_loop (logged env) siteId (Channel_Items (Rss_Channel data)) (w, []) =
       (out, (w', tr'))"
    by (cases "pushArticles_loop (logged env) siteId (Channel_Items (Rss_Channel data)) (w, [])")
      auto
  from pushArticles_loop_logged [OF r] show ?thesis
    by (auto simp add: requests_def pushArticles_def r)
qed

text \<open>
  Claim C7, as amended: in every request that \<^verbatim>\<open>pushSite\<close> issues to the store or the
  index the id is the encoding of the feed URL, and the URL is stored as it is; in every
  request that \<^verbatim>\<open>pushArticles\<close> issues the id is the encoding of the link of an item
  as fetched, while the link stored is the sanitized link. The id is the encoding of
  the link that is stored exactly when the link holds no single quote.
\<close>

theorem ids_derive_from_fetched_keys:
  "list_all (site_id_derived feedUrl) (requests (pushSite (logged env) feedUrl data (w, []))) \<and>
   list_all (article_id_derived (Channel_Items (Rss_Channel data)))
     (requests (pushArticles (logged env) siteId data (w, []))) \<and>
   (EncodeToString link = EncodeToString (sanitize link) \<longleftrightarrow> CHR 0x27 \<notin> set link)"
proof (intro conjI)
  have "site_id_derived feedUrl e" if "e \<in> set (site_requests feedUrl (Rss_Channel data))" for e
    using that by (auto simp add: site_requests_def)
  with requests_pushSite [of env feedUrl data w]
  show "list_all (site_id_derived feedUrl) (requests (pushSite (logged env) feedUrl data (w, [])))"
    by (auto simp add: list_all_iff)
next
  let ?items = "Channel_Items (Rss_Channel data)"
  have "article_id_derived ?items e"
    if "e \<in> (\<Union>article\<in>set ?items. set (article_requests siteId article))" for e
    using that by (auto simp add: article_requests_def list_ex_iff)
  with requests_pushArticles [of env siteId data w]
  show "list_all (article_id_derived ?items) (requests (pushArticles (logged env) siteId data (w, [])))"
    by (auto simp add: list_all_iff)
next
  show "EncodeToString link = EncodeToString (sanitize link) \<longleftrightarrow> CHR 0x27 \<notin> set link"
    using sanitize_id_iff [of link] by (auto dest: EncodeToString_inj)
qed

lemma EncodeToString_quoted:
  "EncodeToString [CHR ''a'', CHR 0x27] = ''YSc=''"
  "EncodeToString [CHR ''a'', CHR 0x60] = ''YWA=''"
  by (simp_all add: sextet_def encodeURL_def)

text \<open>
  Claim C7 as stated fails for a link with a single quote: the article stored for the
  link \<open>a'\<close> has the id \<open>YSc=\<close>, the encoding of \<open>a'\<close>, and the link \<open>a`\<close>, whose
  encoding is \<open>YWA=\<close>.
\<close>

theorem article_id_is_not_of_recorded_link:
  "Articles (fst (snd (pushArticles (logged (reference any_timestamp)) ''S''
       \<lparr>Rss_Channel = channel0\<lparr>Channel_Items := [quoted_item]\<rparr>\<rparr> (world0, [])))) =
     [\<lparr>article_id = ''YSc='', article_title = ''I'', article_link = [CHR ''a'', CHR 0x60],
       article_description = ''D'', article_pubdate = Some 0, article_site_id = ''S''\<rparr>] \<and>
   EncodeToString [CHR ''a'', CHR 0x60] = ''YWA='' \<and>
   ''YSc='' \<noteq> ''YWA=''"
  by (simp add: EncodeToString_quoted pushArticles_def quoted_item_def sanitize_def
      pushArticleToDB_def pushArticleToES_def pushToES_cases logged_def reference_def
      store_Exec_def index_Update_def index_Create_def world0_def response_def update_body_def
      create_body_def any_timestamp_def channel0_def Let_def del: EncodeToString.simps)

lemma sanitize_no_quote: "CHR 0x27 \<notin> set (sanitize s)"
  by (auto simp add: sanitize_map)

text \<open>
  Claim C6, as amended: the sanitizer replaces every single quote by a backtick and
  leaves no single quote; every request to the store or the index is one of the listed
  ones, in which the title, link and description of the channel and the title, link,
  description and publication date of an item are sanitized, while the feed URL is
  written as given and the ids encode the URL and the link as fetched. An id holds no
  single quote, so the \<^verbatim>\<open>url\<close> of a site is the one text that can reach a sink
  with a single quote.
\<close>

theorem sanitize_applied_to_fetched_texts:
  "sanitize s = map (\<lambda>c. if c = CHR 0x27 then CHR 0x60 else c) s \<and>
   CHR 0x27 \<notin> set (sanitize s) \<and>
   CHR 0x27 \<notin> set (EncodeToString x) \<and>
   set (requests (pushSite (logged env) feedUrl data (w, []))) \<subseteq>
     set (site_requests feedUrl (Rss_Channel data)) \<and>
   set (requests (pushArticles (logged env) siteId data (w, []))) \<subseteq>
     (\<Union>article\<in>set (Channel_Items (Rss_Channel data)). set (article_requests siteId article))"
  by (simp only: sanitize_map [symmetric] sanitize_no_quote EncodeToString_no_quote
      requests_pushSite requests_pushArticles simp_thms)

lemma EncodeToString_quoted_url: "EncodeToString quoted_url = ''dSc=''"
  by (simp add: quoted_url_def sextet_def encodeURL_def)

text \<open>
  Claim C6 as stated fails for the \<^verbatim>\<open>url\<close> of a site: for a feed URL with a single
  quote the row stored holds the URL with its quote.
\<close>

theorem site_url_is_not_sanitized:
  "Sites (fst (snd (pushSite (logged (reference any_timestamp)) quoted_url
       \<lparr>Rss_Channel = channel0\<rparr> (world0, [])))) =
     [\<lparr>site_id = ''dSc='', site_url = quoted_url, site_title = ''T'', site_link = ''http://a'',
       site_description = ''D''\<rparr>] \<and>
   CHR 0x27 \<in> set quoted_url \<and>
   sanitize quoted_url \<noteq> quoted_url"
proof -
  have "Sites (fst (snd (pushSite (logged (reference any_timestamp)) quoted_url
       \<lparr>Rss_Channel = channel0\<rparr> (world0, [])))) =
     [\<lparr>site_id = ''dSc='', site_url = quoted_url, site_title = ''T'', site_link = ''http://a'',
       site_description = ''D''\<rparr>]"
    by (simp add: EncodeToString_quoted_url pushSite_def sanitize_def
      pushSiteToDB_def pushSiteToES_def pushToES_cases logged_def reference_def
      store_Exec_def index_Update_def index_Create_def world0_def response_def update_body_def
      create_body_def any_timestamp_def channel0_def Let_def del: EncodeToString.simps)
  moreover have "CHR 0x27 \<in> set quoted_url" "sanitize quoted_url \<noteq> quoted_url"
    by (simp_all add: quoted_url_def sanitize_def)
  ultimately show ?thesis by simp
qed

lemma upsert_site_frame:
  "site_id new \<in> set (map site_id rows) \<Longrightarrow>
   map site_id (upsert_site new rows) = map site_id rows \<and>
   map site_url (upsert_site new rows) = map site_url rows \<and>
   map site_link (upsert_site new rows) = map site_link rows"
  by (induction rows) auto

lemma upsert_article_frame:
  "article_id new \<in> set (map article_id rows) \<Longrightarrow>
   map article_id (upsert_article new rows) = map article_id rows \<and>
   map article_link (upsert_article new rows) = map article_link rows \<and>
   map article_pubdate (upsert_article new rows) = map article_pubdate rows \<and>
   map article_site_id (upsert_article new rows) = map article_site_id rows"
  by (induction rows) auto

lemma merge_fields_frame:
  "k \<noteq> ''title'' \<Longrightarrow> k \<noteq> ''description'' \<Longrightarrow>
   map_of (merge_fields [(''title'', t), (''description'', d)] doc) k = map_of doc k"
  by (simp add: merge_fields_def AList.update_conv')

lemma index_body_ok_site_requests:
  "e \<in> set (site_requests feedUrl channel) \<Longrightarrow> index_body_ok e"
  by (auto simp add: site_requests_def update_body_def create_body_def)

lemma index_body_ok_article_requests:
  "e \<in> set (article_requests siteId article) \<Longrightarrow> index_body_ok e"
  by (auto simp add: article_requests_def update_body_def create_body_def)

lemma pushSiteToDB_reference:
  "pushSiteToDB (reference ts) siteId feedUrl title link description w =
     (None, w\<lparr>Sites := upsert_site \<lparr>site_id = siteId, site_url = feedUrl, site_title = title,
        site_link = link, site_description = description\<rparr> (Sites w)\<rparr>)"
  by (simp add: pushSiteToDB_def reference_def store_Exec_def)

lemma pushArticleToDB_reference:
  "pushArticleToDB (reference ts) articleId title link description pubDate siteId w =
     (case ts pubDate of
        None \<Rightarrow> (Some (LibError ''pq: invalid input syntax for type timestamp''), w)
      | Some tm \<Rightarrow>
          (None, w\<lparr>Articles := upsert_article
             \<lparr>article_id = articleId, article_title = title, article_link = link,
              article_description = description, article_pubdate = Some tm,
              article_site_id = siteId\<rparr> (Articles w)\<rparr>))"
  by (simp add: pushArticleToDB_def reference_def store_Exec_def)

lemma pushToES_reference_known:
  "documents w (index, ident) = Some doc \<Longrightarrow>
   pushToES (reference ts) index ident title description w =
     (Ret None, w\<lparr>documents := (documents w)((index, ident) \<mapsto>
        merge_fields [(''title'', JString title), (''description'', JString description)] doc)\<rparr>)"
  by (simp add: pushToES_cases reference_def index_Update_def update_body_def response_def)

text \<open>
  Claim C5: in the reference store, the upsert of a site whose id is known leaves the
  ids, URLs and links of all rows as they were, and the upsert of an article whose id
  is known leaves ids, links, publication dates and site ids as they were; neither
  touches the other table or the index. In the reference index, the upsert of a known
  document leaves every field but title and description as it was. Whatever the
  environment, the body of every index request of \<^verbatim>\<open>pushSite\<close> and \<^verbatim>\<open>pushArticles\<close>
  holds the fields title and description and no other.
\<close>

theorem reupsert_changes_title_and_description_only:
  "(siteId \<in> set (map site_id (Sites w)) \<longrightarrow>
      (let w' = snd (pushSiteToDB (reference ts) siteId feedUrl title link description w)
       in map site_id (Sites w') = map site_id (Sites w) \<and>
          map site_url (Sites w') = map site_url (Sites w) \<and>
          map site_link (Sites w') = map site_link (Sites w) \<and>
          Articles w' = Articles w \<and> documents w' = documents w)) \<and>
   (articleId \<in> set (map article_id (Articles w)) \<longrightarrow>
      (let w' = snd (pushArticleToDB (reference ts) articleId title link description pubDate
                       siteId w)
       in map article_id (Articles w') = map article_id (Articles w) \<and>
          map article_link (Articles w') = map article_link (Articles w) \<and>
          map article_pubdate (Articles w') = map article_pubdate (Articles w) \<and>
          map article_site_id (Articles w') = map article_site_id (Articles w) \<and>
          Sites w' = Sites w \<and> documents w' = documents w)) \<and>
   (documents w (index, ident) = Some doc \<and> k \<noteq> ''title'' \<and> k \<noteq> ''description'' \<longrightarrow>
      (\<exists>doc'. documents (snd (pushToES (reference ts) index ident title description w))
                (index, ident) = Some doc' \<and>
              map_of doc' k = map_of doc k)) \<and>
   list_all index_body_ok (requests (pushSite (logged env) feedUrl data (v, []))) \<and>
   list_all index_body_ok (requests (pushArticles (logged env) siteId data (v, [])))"
proof (intro conjI impI)
  assume "siteId \<in> set (map site_id (Sites w))"
  then show "let w' = snd (pushSiteToDB (reference ts) siteId feedUrl title link description w)
       in map site_id (Sites w') = map site_id (Sites w) \<and>
          map site_url (Sites w') = map site_url (Sites w) \<and>
          map site_link (Sites w') = map site_link (Sites w) \<and>
          Articles w' = Articles w \<and> documents w' = documents w"
    using upsert_site_frame [of "\<lparr>site_id = siteId, site_url = feedUrl, site_title = title,
        site_link = link, site_description = description\<rparr>" "Sites w"]
    by (simp add: pushSiteToDB_reference)
next
  assume "articleId \<in> set (map article_id (Articles w))"
  then show "let w' = snd (pushArticleToDB (reference ts) articleId title link description pubDate
                       siteId w)
       in map article_id (Articles w') = map article_id (Articles w) \<and>
          map article_link (Articles w') = map article_link (Articles w) \<and>
          map article_pubdate (Articles w') = map article_pubdate (Articles w) \<and>
          map article_site_id (Articles w') = map article_site_id (Articles w) \<and>
          Sites w' = Sites w \<and> documents w' = documents w"
    using upsert_article_frame [of "\<lparr>article_id = articleId, article_title = title,
        article_link = link, article_description = description,
        article_pubdate = Some tm, article_site_id = siteId\<rparr>" "Articles w" for tm]
    by (simp add: pushArticleToDB_reference split: option.splits)
next
  assume "documents w (index, ident) = Some doc \<and> k \<noteq> ''title'' \<and> k \<noteq> ''description''"
  then show "\<exists>doc'. documents (snd (pushToES (reference ts) index ident title description w))
                (index, ident) = Some doc' \<and> map_of doc' k = map_of doc k"
    by (simp add: pushToES_reference_known merge_fields_frame)
next
  from requests_pushSite [of env feedUrl data v]
  show "list_all index_body_ok (requests (pushSite (logged env) feedUrl data (v, [])))"
    by (auto simp add: list_all_iff dest: index_body_ok_site_requests)
next
  from requests_pushArticles [of env siteId data v]
  show "list_all index_body_ok (requests (pushArticles (logged env) siteId data (v, [])))"
    by (auto simp add: list_all_iff dest: index_body_ok_article_requests)
qed

theorem reupsert_changes_title_and_description_only_witness:
  "''dQ=='' \<in> set (map site_id (Sites world_known)) \<and>
   Sites (snd (pushSiteToDB (reference any_timestamp) ''dQ=='' ''v'' ''new title'' ''new link''
       ''new description'' world_known)) =
     [known_site\<lparr>site_title := ''new title'', site_description := ''new description''\<rparr>] \<and>
   map site_url (Sites (snd (pushSiteToDB (reference any_timestamp) ''dQ=='' ''v'' ''new title''
       ''new link'' ''new description'' world_known))) = map site_url (Sites world_known) \<and>
   ''bA=='' \<in> set (map article_id (Articles world_known)) \<and>
   Articles (snd (pushArticleToDB (reference any_timestamp) ''bA=='' ''new title'' ''new link''
       ''new description'' ''P'' ''dQ=='' world_known)) =
     [known_article\<lparr>article_title := ''new title'',
        article_description := ''new description''\<rparr>] \<and>
   map article_link (Articles (snd (pushArticleToDB (reference any_timestamp) ''bA==''
       ''new title'' ''new link'' ''new description'' ''P'' ''dQ=='' world_known))) =
     map article_link (Articles world_known) \<and>
   documents world_known (''sites'', ''dQ=='') = Some known_document \<and>
   ''lang'' \<noteq> ''title'' \<and> ''lang'' \<noteq> ''description'' \<and>
   (\<exists>doc'. documents (snd (pushToES (reference any_timestamp) ''sites'' ''dQ=='' ''new title''
               ''new description'' world_known)) (''sites'', ''dQ=='') = Some doc' \<and>
           map_of doc' ''lang'' = map_of known_document ''lang'')"
proof -
  let ?site = "snd (pushSiteToDB (reference any_timestamp) ''dQ=='' ''v'' ''new title''
       ''new link'' ''new description'' world_known)"
  let ?article = "snd (pushArticleToDB (reference any_timestamp) ''bA=='' ''new title''
       ''new link'' ''new description'' ''P'' ''dQ=='' world_known)"
  have h1: "''dQ=='' \<in> set (map site_id (Sites world_known))"
    by (simp add: world_known_def known_site_def)
  have h2: "''bA=='' \<in> set (map article_id (Articles world_known))"
    by (simp add: world_known_def known_article_def)
  have h3: "documents world_known (''sites'', ''dQ=='') = Some known_document \<and>
      ''lang'' \<noteq> ''title'' \<and> ''lang'' \<noteq> ''description''"
    by (simp add: world_known_def)
  have s: "Sites ?site =
      [known_site\<lparr>site_title := ''new title'', site_description := ''new description''\<rparr>]"
    by (simp add: pushSiteToDB_reference world_known_def known_site_def)
  have a: "Articles ?article =
      [known_article\<lparr>article_title := ''new title'',
         article_description := ''new description''\<rparr>]"
    by (simp add: pushArticleToDB_reference world_known_def known_article_def any_timestamp_def)
  note inst = reupsert_changes_title_and_description_only
    [where siteId = "''dQ==''" and w = world_known and ts = any_timestamp and feedUrl = "''v''"
      and title = "''new title''" and link = "''new link''"
      and description = "''new description''" and articleId = "''bA==''" and pubDate = "''P''"
      and index = "''sites''" and ident = "''dQ==''" and doc = known_document
      and k = "''lang''" and env = "reference any_timestamp" and v = world_known
      and data = "\<lparr>Rss_Channel = channel0\<rparr>"]
  from inst h1 have u: "map site_url (Sites ?site) = map site_url (Sites world_known)"
    by (simp add: Let_def)
  from inst h2 have l: "map article_link (Articles ?article) =
      map article_link (Articles world_known)"
    by (simp add: Let_def)
  from inst h3 have d: "\<exists>doc'. documents (snd (pushToES (reference any_timestamp) ''sites''
      ''dQ=='' ''new title'' ''new description'' world_known)) (''sites'', ''dQ=='') = Some doc' \<and>
      map_of doc' ''lang'' = map_of known_document ''lang''"
    by blast
  from h1 h2 h3 s a u l d show ?thesis by blast
qed

lemma EncodeToString_u: "EncodeToString ''u'' = ''dQ==''"
  by (simp add: sextet_def encodeURL_def)

text \<open>
  Claim C4, at the input where it fails: the index answers the update of the site with
  status 500. The claim says that no article of the feed is written after a failed site
  write; \<^verbatim>\<open>pushSiteToES\<close> returns nil for this answer, so the article is written to
  the store and sent to the index, while the index holds no document of the site.
\<close>

theorem articles_written_after_failed_site_index_write:
  "feedTask (logged (rejecting_index 500 (reference any_timestamp))) ''u'' (world_web, []) =
     (Ret (),
      world_web\<lparr>Sites := [\<lparr>site_id = ''dQ=='', site_url = ''u'', site_title = ''T'',
                    site_link = ''http://a'', site_description = ''D''\<rparr>],
        Articles := [\<lparr>article_id = ''aHR0cDovL2EvMQ=='', article_title = ''I1'',
           article_link = ''http://a/1'', article_description = ''D1'',
           article_pubdate = Some 0, article_site_id = ''dQ==''\<rparr>]\<rparr>,
      [EvFetch ''u'',
       EvExec (UpsertSite ''dQ=='' ''u'' ''T'' ''http://a'' ''D''),
       EvUpdate ''sites'' ''dQ=='' (update_body ''T'' ''D''),
       EvExec (UpsertArticle ''aHR0cDovL2EvMQ=='' ''I1'' ''http://a/1'' ''D1'' ''P1'' ''dQ==''),
       EvUpdate ''articles'' ''aHR0cDovL2EvMQ=='' (update_body ''I1'' ''D1'')])"
  by (simp add: feedTask_def scrapeRss_def pushSite_def pushArticles_def
      EncodeToString_u EncodeToString_item1 item1_def sanitize_def
      pushSiteToDB_def pushSiteToES_def pushArticleToDB_def pushArticleToES_def pushToES_cases
      logged_def rejecting_index_def reference_def web_Get_def
      store_Exec_def world_web_def update_body_def
      any_timestamp_def channel0_def Let_def del: EncodeToString.simps)

text \<open>
  What does hold of the order of the writes: an error returned by \<^verbatim>\<open>pushSite\<close> ends
  the task before any article; and the log of a task is the fetch, then requests of
  the site, then requests of the articles, the latter only after the upsert statement
  of the site.
\<close>

lemma feedTask_aborts_on_site_error:
  assumes "scrapeRss env url w = (Ret data, w1)"
    and "pushSite env url data w1 = (Ret (siteId, Some err), w2)"
  shows "feedTask env url w = (Ret (), w2)"
  using assms by (simp add: feedTask_def)

lemma pushSite_success:
  assumes "pushSite (logged env) feedUrl data (w, tr) = (Ret (siteId, None), (w', tr'))"
  shows "siteId = EncodeToString feedUrl \<and>
         EvExec (UpsertSite (EncodeToString feedUrl) feedUrl
           (sanitize (Channel_Title (Rss_Channel data)))
           (sanitize (Channel_Link (Rss_Channel data)))
           (sanitize (Channel_Description (Rss_Channel data)))) \<in> set tr'"
proof -
  let ?id = "EncodeToString feedUrl"
  let ?t = "sanitize (Channel_Title (Rss_Channel data))"
  let ?d = "sanitize (Channel_Description (Rss_Channel data))"
  let ?q = "UpsertSite ?id feedUrl ?t (sanitize (Channel_Link (Rss_Channel data))) ?d"
  from assms have valid:
    "\<not> (Channel_Title (Rss_Channel data) = [] \<or> Channel_Link (Rss_Channel data) = [])"
    by (auto simp add: pushSite_def)
  obtain e1 w1 where db: "db_Exec env ?q w = (e1, w1)"
    by (cases "db_Exec env ?q w")
  obtain o2 w2 tr2 where es:
    "pushToES (logged env) ''sites'' ?id ?t ?d (w1, tr @ [EvExec ?q]) = (o2, (w2, tr2))"
    by (cases "pushToES (logged env) ''sites'' ?id ?t ?d (w1, tr @ [EvExec ?q])") auto
  from assms valid db es have "siteId = ?id \<and> tr' = tr2"
    by (auto simp add: pushSite_def pushSiteToDB_def pushSiteToES_def logged_simps Let_def
        split: option.splits outcome.splits)
  moreover from pushToES_logged [OF es] have "EvExec ?q \<in> set tr2" by auto
  ultimately show ?thesis by simp
qed

lemma feedTask_site_before_articles:
  assumes "feedTask (logged env) url (w, []) = (out, (w', tr))"
  shows "\<exists>site_part article_part. tr = EvFetch url # site_part @ article_part \<and>
     (\<forall>data. fst (http_Get_Unmarshal env url w) = Inr data \<longrightarrow>
        set site_part \<subseteq> set (site_requests url (Rss_Channel data)) \<and>
        set article_part \<subseteq> (\<Union>article\<in>set (Channel_Items (Rss_Channel data)).
           set (article_requests (EncodeToString url) article)) \<and>
        (article_part \<noteq> [] \<longrightarrow>
           EvExec (UpsertSite (EncodeToString url) url (sanitize (Channel_Title (Rss_Channel data)))
             (sanitize (Channel_Link (Rss_Channel data)))
             (sanitize (Channel_Description (Rss_Channel data)))) \<in> set site_part))"
proof -
  obtain r w1 where get: "http_Get_Unmarshal env url w = (r, w1)"
    by (cases "http_Get_Unmarshal env url w")
  show ?thesis
  proof (cases r)
    case (Inl err)
    with assms get have "tr = EvFetch url # [] @ []"
      by (simp add: feedTask_def scrapeRss_def logged_simps)
    moreover from get Inl have "fst (http_Get_Unmarshal env url w) \<noteq> Inr data" for data
      by simp
    ultimately show ?thesis by blast
  next
    case (Inr data)
    obtain o2 w2 tr2 where site:
      "pushSite (logged env) url data (w1, [EvFetch url]) = (o2, (w2, tr2))"
      by (cases "pushSite (logged env) url data (w1, [EvFetch url])") auto
    from pushSite_logged [OF site] obtain site_part where
      tr2: "tr2 = EvFetch url # site_part"
      and sub: "set site_part \<subseteq> set (site_requests url (Rss_Channel data))"
      by auto
    from get Inr have data: "fst (http_Get_Unmarshal env url w) = Inr d \<longleftrightarrow> d = data" for d
      by auto
    show ?thesis
    proof (cases "\<exists>siteId. o2 = Ret (siteId, None)")
      case True
      then obtain siteId where o2: "o2 = Ret (siteId, None)" by blast
      from pushSite_success [OF site [unfolded o2]] tr2
      have sid: "siteId = EncodeToString url"
        and first: "EvExec (UpsertSite (EncodeToString url) url
           (sanitize (Channel_Title (Rss_Channel data)))
           (sanitize (Channel_Link (Rss_Channel data)))
           (sanitize (Channel_Description (Rss_Channel data)))) \<in> set site_part"
        by auto
      from assms get Inr site o2
      have "pushArticles_loop (logged env) siteId (Channel_Items (Rss_Channel data)) (w2, tr2) =
          (out, (w', tr))"
        by (simp add: feedTask_def scrapeRss_def logged_simps pushArticles_def)
      from pushArticles_loop_logged [OF this] obtain article_part where
        "tr = tr2 @ article_part"
        "set article_part \<subseteq> (\<Union>article\<in>set (Channel_Items (Rss_Channel data)).
           set (article_requests siteId article))"
        by auto
      with tr2 sub sid first data show ?thesis
        by (intro exI [of _ site_part] exI [of _ article_part]) simp
    next
      case False
      with assms get Inr site have "tr = tr2"
        by (auto simp add: feedTask_def scrapeRss_def logged_simps
            split: outcome.splits option.splits)
      with tr2 sub data show ?thesis
        by (intro exI [of _ site_part] exI [of _ "[]"]) simp
    qed
  qed
qed

end
